theory Spec2Isabelle
  imports Main "HOL-Library.Sublist" "HOL-Library.Multiset"
begin

section \<open>Python values: characters, strings, integers, exceptions\<close>

text \<open>
  A Python \<open>str\<close> is modelled as a \<open>string\<close>, one \<open>char\<close> per code point. The
  \<open>char\<close> type has 256 values, so the texts of this model range over the code points
  U+0000 to U+00FF (Latin-1), which hold every literal of the program apart from the
  bullet U+2022 of one character class. The case mapping, the white space and the digits
  below are Python's on that range.
\<close>

abbreviation (input) Uuml :: char where "Uuml \<equiv> CHR 0xDC"
abbreviation (input) uuml :: char where "uuml \<equiv> CHR 0xFC"
abbreviation (input) auml :: char where "auml \<equiv> CHR 0xE4"
abbreviation (input) ouml :: char where "ouml \<equiv> CHR 0xF6"
abbreviation (input) newline :: char where "newline \<equiv> CHR 0x0A"

datatype py_error = ValueError | IndexError | TypeError | AttributeError | FitzError

definition py_isupper_char :: "char \<Rightarrow> bool" where
  "py_isupper_char c = (let n = (of_char c :: nat) in
     (65 \<le> n \<and> n \<le> 90) \<or> (192 \<le> n \<and> n \<le> 222 \<and> n \<noteq> 215))"

text \<open>Lower-casing adds 32 to the code point of an upper-case letter, that is, sets bit 5.\<close>

fun py_lower_char :: "char \<Rightarrow> char" where
  "py_lower_char (Char b0 b1 b2 b3 b4 b5 b6 b7) =
     (if py_isupper_char (Char b0 b1 b2 b3 b4 b5 b6 b7)
      then Char b0 b1 b2 b3 b4 True b6 b7 else Char b0 b1 b2 b3 b4 b5 b6 b7)"

definition py_lower :: "string \<Rightarrow> string" where
  "py_lower s = map py_lower_char s"

definition py_isspace :: "char \<Rightarrow> bool" where
  "py_isspace c = (let n = (of_char c :: nat) in
     (9 \<le> n \<and> n \<le> 13) \<or> (28 \<le> n \<and> n \<le> 32) \<or> n = 133 \<or> n = 160)"

definition py_isdigit :: "char \<Rightarrow> bool" where
  "py_isdigit c = (let n = (of_char c :: nat) in 48 \<le> n \<and> n \<le> 57)"

definition py_strip :: "string \<Rightarrow> string" where
  "py_strip s = rev (dropWhile py_isspace (rev (dropWhile py_isspace s)))"

text \<open>\<open>w in t\<close> on strings.\<close>

definition py_in :: "string \<Rightarrow> string \<Rightarrow> bool" where
  "py_in w t = sublist w t"

definition py_startswith :: "string \<Rightarrow> string \<Rightarrow> bool" where
  "py_startswith s p = prefix p s"

text \<open>\<open>sep.join(xs)\<close>.\<close>

fun py_join :: "string \<Rightarrow> string list \<Rightarrow> string" where
  "py_join sep [] = []"
| "py_join sep [x] = x"
| "py_join sep (x # y # ys) = x @ sep @ py_join sep (y # ys)"

text \<open>\<open>enumerate(xs, start=n)\<close>.\<close>

fun enumerate_from :: "int \<Rightarrow> 'a list \<Rightarrow> (int \<times> 'a) list" where
  "enumerate_from n [] = []"
| "enumerate_from n (x # xs) = (n, x) # enumerate_from (n + 1) xs"

text \<open>
  Indexing \<open>xs[i]\<close>. Python reads \<open>i\<close> from the front when it is not negative and
  from the back otherwise, and raises \<open>IndexError\<close> when no element is there. The pages
  of a document are indexed in this way here. The program passes the page numbers from 1
  on, less one; what PyMuPDF does with an index below \<open>-len(doc)\<close> is not modelled.
\<close>

definition py_getitem :: "'a list \<Rightarrow> int \<Rightarrow> py_error + 'a" where
  "py_getitem xs i =
     (if 0 \<le> i \<and> i < int (length xs) then Inr (xs ! nat i)
      else if i < 0 \<and> - int (length xs) \<le> i then Inr (xs ! nat (int (length xs) + i))
      else Inl IndexError)"

text \<open>
  \<open>int(s)\<close> for a run of decimal digits, which is what the program applies it to (the
  captures of \<open>\d+\<close>); any other string is answered with \<open>ValueError\<close>. The limit that
  recent versions of CPython put on the number of digits (4300 unless configured
  otherwise) is not modelled: here a longer run of digits has its value.
\<close>

definition digit_val :: "char \<Rightarrow> nat" where
  "digit_val c = of_char c - 48"

definition py_int :: "string \<Rightarrow> py_error + int" where
  "py_int s = (if s \<noteq> [] \<and> list_all py_isdigit s
               then Inr (int (foldl (\<lambda>a c. 10 * a + digit_val c) 0 s))
               else Inl ValueError)"

text \<open>\<open>str(n)\<close> and the format specifications \<open>{n}\<close> and \<open>{n:03d}\<close>.\<close>

definition digit_char :: "nat \<Rightarrow> char" where
  "digit_char d = ''0123456789'' ! d"

function str_nat :: "nat \<Rightarrow> string" where
  "str_nat n = (if n < 10 then [digit_char n] else str_nat (n div 10) @ [digit_char (n mod 10)])"
  by pat_completeness auto
termination
  by (relation "measure id") auto

declare str_nat.simps [simp del]

definition str_int :: "int \<Rightarrow> string" where
  "str_int i = (if i < 0 then CHR ''-'' # str_nat (nat (- i)) else str_nat (nat i))"

definition fmt_03d :: "int \<Rightarrow> string" where
  "fmt_03d i =
     (let d = str_nat (nat \<bar>i\<bar>)
      in if i < 0 then CHR ''-'' # replicate (2 - length d) CHR ''0'' @ d
         else replicate (3 - length d) CHR ''0'' @ d)"

text \<open>\<open>f"{x}"\<close> for a value that is an integer or \<open>None\<close>.\<close>

definition fmt_opt_int :: "int option \<Rightarrow> string" where
  "fmt_opt_int x = (case x of None \<Rightarrow> ''None'' | Some i \<Rightarrow> str_int i)"

text \<open>\<open>f"{x:03d}"\<close> for such a value: \<open>None\<close> does not support the format.\<close>

definition fmt_opt_03d :: "int option \<Rightarrow> py_error + string" where
  "fmt_opt_03d x = (case x of None \<Rightarrow> Inl TypeError | Some i \<Rightarrow> Inr (fmt_03d i))"

section \<open>Regular expressions as the program uses them\<close>

text \<open>
  The matcher of Python's \<open>re\<close> explores the alternatives of a pattern in a fixed order
  and answers with the first way to match. \<open>ms r (s, c)\<close> lists all the ways in which
  \<open>r\<close> matches a prefix of \<open>s\<close>, in that order, each as the text left over and the
  groups captured so far (the latest capture of a group first).
\<close>

type_synonym caps = "(nat \<times> string) list"
type_synonym mstate = "string \<times> caps"

datatype rx =
    Chr "char \<Rightarrow> bool"
  | Eps
  | Seq rx rx
  | Alt rx rx
  | Star bool rx
  | Grp nat rx

text \<open>
  \<open>Chr p\<close> is one character of a class, \<open>Star True r\<close> the greedy \<open>r*\<close>,
  \<open>Star False r\<close> the lazy \<open>r*?\<close>, \<open>Grp n r\<close> the capturing group number \<open>n\<close>.
\<close>

function (sequential) ms :: "rx \<Rightarrow> mstate \<Rightarrow> mstate list" where
  "ms (Chr p) (s, c) = (case s of [] \<Rightarrow> [] | x # xs \<Rightarrow> if p x then [(xs, c)] else [])"
| "ms Eps st = [st]"
| "ms (Seq a b) st = concat (map (ms b) (ms a st))"
| "ms (Alt a b) st = ms a st @ ms b st"
| "ms (Grp n r) (s, c) =
     map (\<lambda>(s', c'). (s', (n, take (length s - length s') s) # c')) (ms r (s, c))"
| "ms (Star greedy r) st =
     (let more = concat (map (\<lambda>st'. if length (fst st') < length (fst st)
                                     then ms (Star greedy r) st' else [])
                             (ms r st))
      in if greedy then more @ [st] else st # more)"
  by pat_completeness auto
termination
  by (relation "inv_image (less_than <*lex*> less_than) (\<lambda>(r, st). (size r, length (fst st)))")
     auto

declare ms.simps(6) [simp del]

definition Plus :: "bool \<Rightarrow> rx \<Rightarrow> rx" where
  "Plus greedy r = Seq r (Star greedy r)"

fun seqs :: "rx list \<Rightarrow> rx" where
  "seqs [] = Eps"
| "seqs (r # rs) = Seq r (seqs rs)"

fun alts :: "rx list \<Rightarrow> rx" where
  "alts [] = Chr (\<lambda>_. False)"
| "alts [r] = r"
| "alts (r # rs) = Alt r (alts rs)"

text \<open>A literal text, and the same under \<open>re.IGNORECASE\<close>.\<close>

definition lit :: "string \<Rightarrow> rx" where
  "lit s = seqs (map (\<lambda>c. Chr (\<lambda>x. x = c)) s)"

definition lit_i :: "string \<Rightarrow> rx" where
  "lit_i s = seqs (map (\<lambda>c. Chr (\<lambda>x. py_lower_char x = py_lower_char c)) s)"

abbreviation (input) rx_space :: rx where "rx_space \<equiv> Chr py_isspace"
abbreviation (input) rx_digit :: rx where "rx_digit \<equiv> Chr py_isdigit"

text \<open>The match that starts at the head of \<open>s\<close>, if there is one.\<close>

definition match_at :: "rx \<Rightarrow> string \<Rightarrow> mstate option" where
  "match_at r s = (case ms r (s, []) of [] \<Rightarrow> None | y # _ \<Rightarrow> Some y)"

text \<open>\<open>m.group(n)\<close>: \<open>None\<close> for a group that took no part in the match.\<close>

definition match_group :: "caps \<Rightarrow> nat \<Rightarrow> string option" where
  "match_group c n = map_of c n"

text \<open>\<open>re.search\<close>: the match at the leftmost position that has one.\<close>

fun re_search :: "rx \<Rightarrow> string \<Rightarrow> mstate option" where
  "re_search r [] = match_at r []"
| "re_search r (x # xs) =
     (case match_at r (x # xs) of Some y \<Rightarrow> Some y | None \<Rightarrow> re_search r xs)"

text \<open>
  \<open>re.finditer\<close>: the matches from left to right, each search resuming where the last
  match ended. After a match of the empty string the search moves on by one character.
\<close>

function finditer :: "rx \<Rightarrow> string \<Rightarrow> caps list" where
  "finditer r s =
     (case match_at r s of
        None \<Rightarrow> (case s of [] \<Rightarrow> [] | x # xs \<Rightarrow> finditer r xs)
      | Some (rest, c) \<Rightarrow>
          if length rest < length s then c # finditer r rest
          else (case s of [] \<Rightarrow> [c] | x # xs \<Rightarrow> c # finditer r xs))"
  by pat_completeness auto
termination
  by (relation "measure (\<lambda>(r, s). length s)") auto

declare finditer.simps [simp del]

section \<open>The data model\<close>

record image =
  path :: string
  page :: int
  order :: int
  img_type :: "string option"

record drill_text =
  t_preface :: string
  t_setup :: string
  t_execution :: string
  t_coaching_points :: string
  t_variations :: string
  t_goal :: string
  t_raw_rest :: string

record drill_bullets =
  b_setup :: "string list"
  b_execution :: "string list"
  b_coaching_points :: "string list"
  b_variations :: "string list"
  b_goal :: "string list"

record drill_tags =
  formation :: string
  concept_tags :: "string list"
  drill_level :: string
  requires_goalkeeper :: bool

record drill =
  drill_id :: string
  title :: string
  duration_min :: int
  cumulative_min :: int
  phase :: string
  source_page_start :: int
  text_fields :: drill_text
  text_bullets :: drill_bullets
  tags :: drill_tags
  images :: "image list"

definition empty_text :: drill_text where
  "empty_text = \<lparr>t_preface = [], t_setup = [], t_execution = [], t_coaching_points = [],
     t_variations = [], t_goal = [], t_raw_rest = []\<rparr>"

definition empty_bullets :: drill_bullets where
  "empty_bullets = \<lparr>b_setup = [], b_execution = [], b_coaching_points = [],
     b_variations = [], b_goal = []\<rparr>"

text \<open>
  A document as PyMuPDF presents it: per page the result of \<open>get_text\<close> (\<open>None\<close> when
  it raises) and of \<open>get_images\<close> (\<open>None\<close> when it raises), the latter with, per
  embedded image, the extension that \<open>extract_image\<close> reports (\<open>None\<close> when it raises).
\<close>

record pdf_page =
  page_text :: "string option"
  page_images :: "string option list option"

record extractor =
  doc :: "pdf_page list"
  filename :: string
  extract_images :: bool
  session_id :: "int option"

section \<open>The extractor\<close>

text \<open>The session identifier: \<open>re.search(r'(\d+)', filename)\<close>, then \<open>int\<close> of group 1.\<close>

definition session_id_pattern :: rx where
  "session_id_pattern = Grp 1 (Plus True rx_digit)"

definition session_id_of :: "string \<Rightarrow> int option" where
  "session_id_of name =
     (case re_search session_id_pattern name of
        None \<Rightarrow> None
      | Some (rest, c) \<Rightarrow>
          (case match_group c 1 of
             None \<Rightarrow> None
           | Some g \<Rightarrow> (case py_int g of Inl e \<Rightarrow> None | Inr i \<Rightarrow> Some i)))"

text \<open>
  The constructor, called as the program calls it (no \<open>image_output_dir\<close>): the document
  is opened (\<open>None\<close>: \<open>fitz.open\<close> raises), the identifier is read from the file name,
  and the name of the image directory is formatted with \<open>{self.session_id:03d}\<close>, which
  raises for a file name without digits. Creating the directory is not modelled.
\<close>

definition new_extractor :: "string \<Rightarrow> pdf_page list option \<Rightarrow> bool \<Rightarrow> py_error + extractor" where
  "new_extractor name opened with_images =
     (case opened of
        None \<Rightarrow> Inl FitzError
      | Some d \<Rightarrow>
          (case fmt_opt_03d (session_id_of name) of
             Inl e \<Rightarrow> Inl e
           | Inr dir \<Rightarrow> Inr \<lparr>doc = d, filename = name, extract_images = with_images,
                              session_id = session_id_of name\<rparr>))"

subsection \<open>The text of the pages\<close>

text \<open>\<open>extract_text_by_page\<close>: the loop over the pages; \<open>get_text\<close> may raise.\<close>

fun texts_loop :: "pdf_page list \<Rightarrow> py_error + string list" where
  "texts_loop [] = Inr []"
| "texts_loop (p # ps) =
     (case page_text p of
        None \<Rightarrow> Inl FitzError
      | Some t \<Rightarrow> (case texts_loop ps of Inl err \<Rightarrow> Inl err | Inr ts \<Rightarrow> Inr (t # ts)))"

definition extract_text_by_page :: "extractor \<Rightarrow> py_error + string list" where
  "extract_text_by_page e = texts_loop (doc e)"

subsection \<open>Embedded images of a page\<close>

text \<open>
  \<open>images_loop\<close> is the loop over \<open>enumerate(image_list, start=1)\<close>. It returns the
  image references and the names of the files written. An image whose extraction raises
  is left out; so is one whose relative path cannot be formatted, after its file has been
  written.
\<close>

definition image_filename :: "int option \<Rightarrow> int \<Rightarrow> int \<Rightarrow> string \<Rightarrow> string" where
  "image_filename sid page_num img_index ext =
     fmt_opt_int sid @ ''-'' @ str_int page_num @ ''_img'' @ str_int img_index @ ''.'' @ ext"

fun images_loop :: "extractor \<Rightarrow> int \<Rightarrow> (int \<times> string option) list \<Rightarrow> image list \<times> string list" where
  "images_loop e page_num [] = ([], [])"
| "images_loop e page_num ((img_index, info) # rest) =
     (let (imgs, files) = images_loop e page_num rest
      in case info of
           None \<Rightarrow> (imgs, files)
         | Some ext \<Rightarrow>
             (let name = image_filename (session_id e) page_num img_index ext;
                  written = (if extract_images e then [name] else [])
              in case fmt_opt_03d (session_id e) of
                   Inl err \<Rightarrow> (imgs, written @ files)
                 | Inr sid3 \<Rightarrow>
                     (\<lparr>path = ''drill_images/TE_'' @ sid3 @ ''/'' @ name,
                       page = page_num, order = img_index, img_type = None\<rparr> # imgs,
                      written @ files)))"

definition extract_images_from_page :: "extractor \<Rightarrow> int \<Rightarrow> py_error + (image list \<times> string list)" where
  "extract_images_from_page e page_num =
     (case py_getitem (doc e) (page_num - 1) of
        Inl err \<Rightarrow> Inl err
      | Inr p \<Rightarrow>
          (case page_images p of
             None \<Rightarrow> Inr ([], [])
           | Some image_list \<Rightarrow> Inr (images_loop e page_num (enumerate_from 1 image_list))))"

subsection \<open>Phase classification\<close>

definition any_in :: "string list \<Rightarrow> string \<Rightarrow> bool" where
  "any_in ws t = list_ex (\<lambda>w. py_in w t) ws"

definition warmup_words :: "string list" where
  "warmup_words = [''einlaufen'', ''aufw'' @ auml # ''rmen'', ''warm'', ''dehnen'']"

definition coordination_words :: "string list" where
  "coordination_words = [''koordination'', ''lauf'']"

definition ballhandling_words :: "string list" where
  "ballhandling_words = [''ballgew'' @ ouml # ''hnung'', ''ballhandling'', ''passen'']"

definition goalkeeper_words :: "string list" where
  "goalkeeper_words = [''torh'' @ uuml # ''ter'', ''torwart'', ''einwerfen'']"

definition shooting_words :: "string list" where
  "shooting_words = [''wurfserie'', ''werfen'']"

definition offense_words :: "string list" where
  "offense_words = [''angriff'', ''offensive'']"

definition defense_words :: "string list" where
  "defense_words = [''abwehr'', ''defensive'']"

definition game_words :: "string list" where
  "game_words = [''spiel'', ''abschluss'']"

abbreviation (input) phase_goalkeeper :: string where
  "phase_goalkeeper \<equiv> ''Torh'' @ uuml # ''ter''"

definition classify_phase :: "string \<Rightarrow> string" where
  "classify_phase ttl =
     (let title_lower = py_lower ttl
      in if any_in warmup_words title_lower then ''Warm-up''
         else if any_in coordination_words title_lower then ''Koordination''
         else if any_in ballhandling_words title_lower then ''Ballhandling''
         else if any_in goalkeeper_words title_lower then phase_goalkeeper
         else if any_in shooting_words title_lower then ''Wurfserie''
         else if any_in offense_words title_lower then ''Angriff''
         else if any_in defense_words title_lower then ''Abwehr''
         else if any_in game_words title_lower then ''Spiel''
         else ''Angriff'')"

subsection \<open>Drill segmentation\<close>

text \<open>
  The header pattern
  \<^verbatim>\<open>(?:Ubung|Drill|Teil)\s*(\d+)[:\s]+(.*?)(?:\((\d+)\s*Min)\<close>
  (its first letter is U+00DC, U with diaeresis) under \<open>re.IGNORECASE\<close>; the dot does
  not match a line break.
\<close>

definition drill_pattern :: rx where
  "drill_pattern = seqs
     [alts [lit_i (Uuml # ''bung''), lit_i ''Drill'', lit_i ''Teil''],
      Star True rx_space,
      Grp 1 (Plus True rx_digit),
      Plus True (Chr (\<lambda>c. c = CHR '':'' \<or> py_isspace c)),
      Grp 2 (Star False (Chr (\<lambda>c. c \<noteq> newline))),
      seqs [Chr (\<lambda>c. c = CHR ''(''),
            Grp 3 (Plus True rx_digit),
            Star True rx_space,
            lit_i ''Min'']]"

definition unknown_tags :: "bool \<Rightarrow> drill_tags" where
  "unknown_tags gk = \<lparr>formation = ''unbekannt'', concept_tags = [],
     drill_level = ''unbekannt'', requires_goalkeeper = gk\<rparr>"

text \<open>The body of the loop over the matches of one page: one drill for the match \<open>m\<close>.\<close>

definition drill_of_match :: "extractor \<Rightarrow> int \<Rightarrow> int \<Rightarrow> caps \<Rightarrow> py_error + drill" where
  "drill_of_match e page_num cumulative m =
     (case match_group m 2 of
        None \<Rightarrow> Inl AttributeError
      | Some g2 \<Rightarrow>
          (let drill_title = py_strip g2
           in case (case match_group m 3 of
                      None \<Rightarrow> Inr 10
                    | Some g3 \<Rightarrow> if g3 = [] then Inr 10 else py_int g3) of
                Inl err \<Rightarrow> Inl err
              | Inr duration \<Rightarrow>
                  Inr \<lparr>drill_id = fmt_opt_int (session_id e) @ ''-'' @
                                    (case match_group m 1 of None \<Rightarrow> ''None'' | Some drill_num \<Rightarrow> drill_num),
                       title = drill_title,
                       duration_min = duration,
                       cumulative_min = cumulative + duration,
                       phase = classify_phase drill_title,
                       source_page_start = page_num,
                       text_fields = empty_text,
                       text_bullets = empty_bullets,
                       tags = unknown_tags False,
                       images = []\<rparr>))"

text \<open>
  The inner loop: the drills of the matches of one page, and the running total after
  them.
\<close>

fun matches_loop :: "extractor \<Rightarrow> int \<Rightarrow> caps list \<Rightarrow> int \<Rightarrow> py_error + (drill list \<times> int)" where
  "matches_loop e page_num [] cumulative = Inr ([], cumulative)"
| "matches_loop e page_num (m # rest) cumulative =
     (case drill_of_match e page_num cumulative m of
        Inl err \<Rightarrow> Inl err
      | Inr d \<Rightarrow>
          (case matches_loop e page_num rest (cumulative_min d) of
             Inl err \<Rightarrow> Inl err
           | Inr (ds, running) \<Rightarrow> Inr (d # ds, running)))"

text \<open>The outer loop, over \<open>enumerate(pages, start=1)\<close>.\<close>

fun pages_loop :: "extractor \<Rightarrow> (int \<times> string) list \<Rightarrow> int \<Rightarrow> py_error + drill list" where
  "pages_loop e [] cumulative = Inr []"
| "pages_loop e ((page_num, ptext) # rest) cumulative =
     (case matches_loop e page_num (finditer drill_pattern ptext) cumulative of
        Inl err \<Rightarrow> Inl err
      | Inr (ds, running) \<Rightarrow>
          (case pages_loop e rest running of
             Inl err \<Rightarrow> Inl err
           | Inr ds' \<Rightarrow> Inr (ds @ ds')))"

subsection \<open>The default drills\<close>

definition default_phases :: "(string \<times> string \<times> int) list" where
  "default_phases =
     [(''Einlaufen/Dehnen'', ''Warm-up'', 15),
      (''kleines Spiel'', ''Spiel'', 10),
      (''Ballgew'' @ ouml # ''hnung'', ''Ballhandling'', 10),
      (phase_goalkeeper @ '' einwerfen'', phase_goalkeeper, 10),
      (''Hauptteil'', ''Angriff'', 35),
      (''Abschlussspiel'', ''Spiel'', 10)]"

fun default_loop :: "extractor \<Rightarrow> (int \<times> string \<times> string \<times> int) list \<Rightarrow> int \<Rightarrow> drill list" where
  "default_loop e [] cumulative = []"
| "default_loop e ((idx, ttl, ph, duration) # rest) cumulative =
     \<lparr>drill_id = fmt_opt_int (session_id e) @ ''-'' @ str_int idx,
      title = ttl,
      duration_min = duration,
      cumulative_min = cumulative + duration,
      phase = ph,
      source_page_start = 2,
      text_fields = empty_text,
      text_bullets = empty_bullets,
      tags = unknown_tags (ph = phase_goalkeeper),
      images = []\<rparr> # default_loop e rest (cumulative + duration)"

definition create_default_drills :: "extractor \<Rightarrow> drill list" where
  "create_default_drills e = default_loop e (enumerate_from 1 default_phases) 0"

subsection \<open>\<open>extract_drills\<close>\<close>

text \<open>The images of the pages \<open>1 .. len(pages)\<close>, in order.\<close>

fun collect_images :: "extractor \<Rightarrow> int list \<Rightarrow> py_error + image list" where
  "collect_images e [] = Inr []"
| "collect_images e (page_num # rest) =
     (case extract_images_from_page e page_num of
        Inl err \<Rightarrow> Inl err
      | Inr (page_imgs, files) \<Rightarrow>
          (case collect_images e rest of
             Inl err \<Rightarrow> Inl err
           | Inr imgs \<Rightarrow> Inr (page_imgs @ imgs)))"

definition distribute_images :: "image list \<Rightarrow> drill list \<Rightarrow> drill list" where
  "distribute_images all_images drills =
     map (\<lambda>d. d\<lparr>images := filter (\<lambda>img. page img = source_page_start d) all_images\<rparr>) drills"

definition extract_drills :: "extractor \<Rightarrow> string list \<Rightarrow> py_error + drill list" where
  "extract_drills e pages =
     (case pages_loop e (enumerate_from 1 pages) 0 of
        Inl err \<Rightarrow> Inl err
      | Inr found \<Rightarrow>
          (let drills = (if found = [] then create_default_drills e else found)
           in if extract_images e
              then (case collect_images e (map int [1..<Suc (length pages)]) of
                      Inl err \<Rightarrow> Inl err
                    | Inr all_images \<Rightarrow> Inr (distribute_images all_images drills))
              else Inr drills))"

subsection \<open>Equipment\<close>

abbreviation (input) rx_newline :: rx where "rx_newline \<equiv> Chr (\<lambda>c. c = newline)"
abbreviation (input) rx_not_newline :: rx where "rx_not_newline \<equiv> Chr (\<lambda>c. c \<noteq> newline)"

text \<open>
  The two patterns of \<open>extract_equipment\<close>, under \<open>re.DOTALL | re.IGNORECASE\<close> (the
  dot matches every character):
  \<^verbatim>\<open>(?:Material|Benotigtes Material|Equipment):\s*\n(.*?)(?:\n\n|\nAblauf|\nGrundaufbau)\<close>
  and
  \<^verbatim>\<open>(?:Material|Benotigtes Material):\s*([^\n]+(?:\n[^\n]+)*?)(?:\n\n|\nAblauf)\<close>
  (the \<open>o\<close> of the second word is U+00F6).
\<close>

definition equipment_patterns :: "rx list" where
  "equipment_patterns =
     [seqs [alts [lit_i ''Material'', lit_i (''Ben'' @ ouml # ''tigtes Material''),
                  lit_i ''Equipment''],
            lit_i '':'',
            Star True rx_space,
            rx_newline,
            Grp 1 (Star False (Chr (\<lambda>c. True))),
            alts [seqs [rx_newline, rx_newline],
                  seqs [rx_newline, lit_i ''Ablauf''],
                  seqs [rx_newline, lit_i ''Grundaufbau'']]],
      seqs [alts [lit_i ''Material'', lit_i (''Ben'' @ ouml # ''tigtes Material'')],
            lit_i '':'',
            Star True rx_space,
            Grp 1 (seqs [Plus True rx_not_newline,
                         Star False (seqs [rx_newline, Plus True rx_not_newline])]),
            alts [seqs [rx_newline, rx_newline],
                  seqs [rx_newline, lit_i ''Ablauf'']]]]"

text \<open>
  The loop over the patterns up to its \<open>break\<close>: the groups of the first pattern that
  matches somewhere in the text.
\<close>

fun find_material :: "rx list \<Rightarrow> string \<Rightarrow> caps option" where
  "find_material [] txt = None"
| "find_material (pattern # rest) txt =
     (case re_search pattern txt of
        None \<Rightarrow> find_material rest txt
      | Some (left, c) \<Rightarrow> Some c)"

text \<open>\<open>re.split\<close> on a class of single characters; \<open>str.split\<close> on one character.\<close>

fun re_split_class :: "(char \<Rightarrow> bool) \<Rightarrow> string \<Rightarrow> string list" where
  "re_split_class sep [] = [[]]"
| "re_split_class sep (x # xs) =
     (if sep x then [] # re_split_class sep xs
      else (case re_split_class sep xs of
              [] \<Rightarrow> [[x]]
            | piece # pieces \<Rightarrow> (x # piece) # pieces))"

text \<open>
  The class \<^verbatim>\<open>[\n*\-\u0001]\<close> of the item separators, where \<open>*\<close> stands for the
  bullet U+2022, which no text of this model holds.
\<close>

definition item_separator :: "char \<Rightarrow> bool" where
  "item_separator c \<longleftrightarrow> c = newline \<or> c = CHR ''-'' \<or> c = CHR 0x01"

text \<open>
  \<^verbatim>\<open>re.sub(r'^\d+[\.\)]\s*', '', item)\<close>: the pattern is anchored at the start of the
  item, so at most the match at the start is removed.
\<close>

definition numeric_prefix :: rx where
  "numeric_prefix = seqs [Plus True rx_digit,
                          Chr (\<lambda>c. c = CHR ''.'' \<or> c = CHR '')''),
                          Star True rx_space]"

definition strip_numeric_prefix :: "string \<Rightarrow> string" where
  "strip_numeric_prefix item =
     (case match_at numeric_prefix item of None \<Rightarrow> item | Some (rest, c) \<Rightarrow> rest)"

definition clean_item :: "string \<Rightarrow> string" where
  "clean_item item = strip_numeric_prefix (py_strip item)"

definition keep_item :: "string \<Rightarrow> bool" where
  "keep_item item \<longleftrightarrow> item \<noteq> [] \<and> length item > 2 \<and> \<not> py_startswith item ''http''"

definition equipment_items :: "string \<Rightarrow> string list" where
  "equipment_items material_text =
     filter keep_item (map clean_item (re_split_class item_separator material_text))"

definition default_equipment :: "string list" where
  "default_equipment = [''B'' @ auml # ''lle'', ''H'' @ uuml # ''tchen'']"

definition extract_equipment :: "string \<Rightarrow> py_error + string list" where
  "extract_equipment txt =
     (case find_material equipment_patterns txt of
        None \<Rightarrow> Inr default_equipment
      | Some c \<Rightarrow>
          (case match_group c 1 of
             None \<Rightarrow> Inl TypeError
           | Some material_text \<Rightarrow>
               (let equipment = equipment_items material_text
                in Inr (if equipment = [] then default_equipment else equipment))))"

definition tag_mapping :: "(string \<times> string list) list" where
  "tag_mapping =
     [(''H'' @ uuml # ''tchen'', [''h'' @ uuml # ''tchen'', ''kegel'']),
      (''Ballkiste'', [''ballkiste'', ''b'' @ auml # ''lle'']),
      (''Reifen'', [''reifen'', ''ring'']),
      (''Koordinationsleiter'', [''koordinationsleiter'', ''leiter'']),
      (''Turnkisten'', [''turnkiste'', ''kasten'']),
      (''Turnmatte'', [''matte'', ''turnmatte''])]"

definition extract_equipment_tags :: "string list \<Rightarrow> string list" where
  "extract_equipment_tags equipment =
     (let equipment_text = py_lower (py_join '' '' equipment)
      in map fst (filter (\<lambda>(tag, keywords). any_in keywords equipment_text) tag_mapping))"

subsection \<open>Title and total duration\<close>

text \<open>\<open>text.split(sep)\<close> for a separator of one character.\<close>

definition py_split_char :: "char \<Rightarrow> string \<Rightarrow> string list" where
  "py_split_char sep s = re_split_class (\<lambda>c. c = sep) s"

text \<open>The stripped, non-empty lines of the first page.\<close>

definition title_lines :: "string \<Rightarrow> string list" where
  "title_lines first_page_text =
     filter (\<lambda>l. l \<noteq> []) (map py_strip (py_split_char newline first_page_text))"

text \<open>
  The first loop of \<open>extract_title\<close>: a line with the marker gives the text after its
  first colon if that is longer than 5, else the line after it if that is longer than 5
  and not a copyright line; otherwise the search goes on.
\<close>

fun schwerpunkt_loop :: "string list \<Rightarrow> string option" where
  "schwerpunkt_loop [] = None"
| "schwerpunkt_loop (line # rest) =
     (if py_in ''Schwerpunkt'' line \<or> py_in ''schwerpunkt'' line
      then (let same_line =
                  (if py_in '':'' line
                   then (let ttl = py_strip (tl (dropWhile (\<lambda>c. c \<noteq> CHR '':'') line))
                         in if ttl \<noteq> [] \<and> length ttl > 5 then Some ttl else None)
                   else None);
                next_one =
                  (case rest of
                     [] \<Rightarrow> None
                   | nxt # others \<Rightarrow>
                       (let next_line = py_strip nxt
                        in if length next_line > 5 \<and> \<not> py_in ''Copyright'' next_line
                           then Some next_line else None))
            in case same_line of
                 Some ttl \<Rightarrow> Some ttl
               | None \<Rightarrow> (case next_one of
                             Some ttl \<Rightarrow> Some ttl
                           | None \<Rightarrow> schwerpunkt_loop rest))
      else schwerpunkt_loop rest)"

text \<open>
  The second loop, over the first 15 lines: after a line that names the session, the
  first of the next four lines that can be a title.
\<close>

definition session_marker :: "int option \<Rightarrow> string \<Rightarrow> bool" where
  "session_marker sid line \<longleftrightarrow>
     py_in (''Trainingseinheit '' @ fmt_opt_int sid) line \<or> py_in (''TE '' @ fmt_opt_int sid) line"

definition title_candidate :: "string \<Rightarrow> bool" where
  "title_candidate candidate \<longleftrightarrow>
     length candidate > 10 \<and> \<not> py_in ''Copyright'' candidate \<and> \<not> py_in ''Seite'' candidate
     \<and> \<not> py_in ''handball-uebungen'' candidate \<and> \<not> py_startswith candidate ''http''"

fun marker_loop :: "int option \<Rightarrow> nat \<Rightarrow> string list \<Rightarrow> string option" where
  "marker_loop sid 0 lines = None"
| "marker_loop sid (Suc n) [] = None"
| "marker_loop sid (Suc n) (line # rest) =
     (if session_marker sid line
      then (case find title_candidate (take 4 rest) of
              Some candidate \<Rightarrow> Some candidate
            | None \<Rightarrow> marker_loop sid n rest)
      else marker_loop sid n rest)"

text \<open>
  The fallback: the longest admissible line among the first 20 (the first of the longest,
  as \<open>max\<close> returns), else a title made from the identifier.
\<close>

definition fallback_candidate :: "string \<Rightarrow> bool" where
  "fallback_candidate line \<longleftrightarrow>
     length line > 15 \<and> \<not> py_in ''Copyright'' line \<and> \<not> py_in ''Trainingseinheit'' line
     \<and> \<not> py_in ''Seite'' line \<and> \<not> py_in ''handball-uebungen'' line
     \<and> \<not> py_startswith line ''http'' \<and> \<not> (line \<noteq> [] \<and> list_all py_isdigit line)"

definition extract_title :: "extractor \<Rightarrow> string \<Rightarrow> string" where
  "extract_title e first_page_text =
     (let lines = title_lines first_page_text
      in case schwerpunkt_loop lines of
           Some ttl \<Rightarrow> ttl
         | None \<Rightarrow>
             (case marker_loop (session_id e) 15 lines of
                Some ttl \<Rightarrow> ttl
              | None \<Rightarrow>
                  (case filter fallback_candidate (take 20 lines) of
                     [] \<Rightarrow> ''Trainingseinheit '' @ fmt_opt_int (session_id e)
                   | c # cs \<Rightarrow> foldl (\<lambda>best l. if length best < length l then l else best) c cs)))"

text \<open>
  \<open>extract_duration\<close>: the patterns \<^verbatim>\<open>(\d+)\s*Minuten\<close>, \<^verbatim>\<open>(\d+)\s*Min\.\<close>,
  \<^verbatim>\<open>(\d+)\s*min\<close> and \<^verbatim>\<open>Dauer:\s*(\d+)\<close> in this order, under
  \<open>re.IGNORECASE\<close>; 90 when none matches.
\<close>

definition duration_patterns :: "rx list" where
  "duration_patterns =
     [seqs [Grp 1 (Plus True rx_digit), Star True rx_space, lit_i ''Minuten''],
      seqs [Grp 1 (Plus True rx_digit), Star True rx_space, lit_i ''Min.''],
      seqs [Grp 1 (Plus True rx_digit), Star True rx_space, lit_i ''min''],
      seqs [lit_i ''Dauer:'', Star True rx_space, Grp 1 (Plus True rx_digit)]]"

fun duration_loop :: "rx list \<Rightarrow> string \<Rightarrow> py_error + int" where
  "duration_loop [] txt = Inr 90"
| "duration_loop (pattern # rest) txt =
     (case re_search pattern txt of
        None \<Rightarrow> duration_loop rest txt
      | Some (left, c) \<Rightarrow>
          (case match_group c 1 of None \<Rightarrow> Inl TypeError | Some g \<Rightarrow> py_int g))"

definition extract_duration :: "string \<Rightarrow> py_error + int" where
  "extract_duration txt = duration_loop duration_patterns txt"

subsection \<open>The session record\<close>

text \<open>
  The identifier of a session is an integer or, as \<open>session_id\<close> of the extractor may
  be, \<open>None\<close>.
\<close>

record extraction_info =
  x_method :: string
  x_notes :: string

record session_tags =
  s_formation :: string
  focus_area :: string
  s_concept_tags :: "string list"
  equipment_tags :: "string list"

record session =
  source_file :: string
  s_id :: "int option"
  s_title :: string
  duration_total_min :: int
  equipment :: "string list"
  drills :: "drill list"
  extraction :: extraction_info
  s_tags :: session_tags

definition extraction_note :: extraction_info where
  "extraction_note = \<lparr>x_method = ''pymupdf_text_regex_v2'',
     x_notes = ''Metadata and drill headers extracted; drill descriptions are referenced via source_page_start to avoid verbatim reproduction.''\<rparr>"

text \<open>\<open>extract_session\<close>. The image files written on the way are not recorded here.\<close>

definition extract_session :: "extractor \<Rightarrow> py_error + session" where
  "extract_session e =
     (case extract_text_by_page e of
        Inl err \<Rightarrow> Inl err
      | Inr pages \<Rightarrow>
          (let first_page = (case pages of [] \<Rightarrow> [] | p # ps \<Rightarrow> p);
               all_text = py_join [newline] pages;
               ttl = extract_title e first_page
           in case extract_duration all_text of
                Inl err \<Rightarrow> Inl err
              | Inr duration \<Rightarrow>
                  (case extract_equipment all_text of
                     Inl err \<Rightarrow> Inl err
                   | Inr equip \<Rightarrow>
                       (case extract_drills e pages of
                          Inl err \<Rightarrow> Inl err
                        | Inr ds \<Rightarrow>
                            Inr \<lparr>source_file = filename e,
                                 s_id = session_id e,
                                 s_title = ttl,
                                 duration_total_min = duration,
                                 equipment = equip,
                                 drills = ds,
                                 extraction = extraction_note,
                                 s_tags = \<lparr>s_formation = ''unbekannt'',
                                            focus_area = ''unbekannt'',
                                            s_concept_tags = [],
                                            equipment_tags = extract_equipment_tags equip\<rparr>\<rparr>))))"

section \<open>The library\<close>

text \<open>
  \<open>library['sessions'].sort(key=lambda x: x['id'])\<close>: a stable sort by identifier. Python
  cannot compare \<open>None\<close>, so a list of two or more sessions with an identifier
  \<open>None\<close> raises \<open>TypeError\<close>.
\<close>

definition id_key :: "session \<Rightarrow> int" where
  "id_key s = (case s_id s of None \<Rightarrow> 0 | Some i \<Rightarrow> i)"

definition sort_sessions :: "session list \<Rightarrow> py_error + session list" where
  "sort_sessions xs =
     (if length xs \<le> 1 then Inr xs
      else if list_all (\<lambda>s. s_id s \<noteq> None) xs then Inr (sort_key id_key xs)
      else Inl TypeError)"

text \<open>
  The loop of \<open>update_library\<close> over the PDF files (given in the sorted order of the
  directory listing). \<open>fs\<close> is the file system: what \<open>fitz.open\<close> gives for a file name
  (\<open>None\<close> when it raises). The state is the list of new sessions and the names of the
  documents that have been opened and not closed: \<open>extractor.close()\<close> stands inside
  the \<open>try\<close> block, after \<open>extract_session\<close> and the \<open>append\<close>, and the \<open>except\<close>
  branch only prints.
\<close>

fun process_pdfs :: "(string \<Rightarrow> pdf_page list option) \<Rightarrow> bool \<Rightarrow> int option list \<Rightarrow> string list
    \<Rightarrow> session list \<times> string list \<Rightarrow> session list \<times> string list" where
  "process_pdfs fs with_images existing_ids [] st = st"
| "process_pdfs fs with_images existing_ids (name # rest) (new_sessions, open_docs) =
     (case session_id_of name of
        None \<Rightarrow> process_pdfs fs with_images existing_ids rest (new_sessions, open_docs)
      | Some sid \<Rightarrow>
          if Some sid \<in> set existing_ids
          then process_pdfs fs with_images existing_ids rest (new_sessions, open_docs)
          else (case fs name of
                  None \<Rightarrow> process_pdfs fs with_images existing_ids rest (new_sessions, open_docs)
                | Some d \<Rightarrow>
                    (case new_extractor name (Some d) with_images of
                       Inl err \<Rightarrow>
                         process_pdfs fs with_images existing_ids rest
                           (new_sessions, open_docs @ [name])
                     | Inr e \<Rightarrow>
                         (case extract_session e of
                            Inl err \<Rightarrow>
                              process_pdfs fs with_images existing_ids rest
                                (new_sessions, open_docs @ [name])
                          | Inr s \<Rightarrow>
                              process_pdfs fs with_images existing_ids rest
                                (new_sessions @ [s], open_docs)))))"

text \<open>
  \<open>update_library\<close>: the sessions as they are written back (or the exception of the
  sort), and the documents left open.
\<close>

definition update_library :: "session list \<Rightarrow> string list \<Rightarrow> (string \<Rightarrow> pdf_page list option) \<Rightarrow> bool
    \<Rightarrow> (py_error + session list) \<times> string list" where
  "update_library sessions pdf_files fs with_images =
     (let existing_ids = map s_id sessions;
          (new_sessions, open_docs) = process_pdfs fs with_images existing_ids pdf_files ([], [])
      in (sort_sessions (sessions @ new_sessions), open_docs))"

section \<open>Full-page renders\<close>

text \<open>
  \<open>extract_all_pages_from_pdf\<close> of \<open>pdf_to_images.py\<close>. The document is given by its
  pages, each with whether rendering it succeeds; a page that fails to render raises out
  of the function. The result is the names of the files written and what the function
  returns.
\<close>

definition page_image_filename :: "int \<Rightarrow> int \<Rightarrow> string" where
  "page_image_filename sid page_number =
     ''TE_'' @ fmt_03d sid @ ''_page_'' @ str_int page_number @ ''.png''"

fun render_loop :: "int \<Rightarrow> (int \<times> bool) list \<Rightarrow> string list \<times> (py_error + image list)" where
  "render_loop sid [] = ([], Inr [])"
| "render_loop sid ((page_num, renders) # rest) =
     (let page_number = page_num + 1;
          image_filename = page_image_filename sid page_number
      in if \<not> renders then ([], Inl FitzError)
         else (let (files, r) = render_loop sid rest
               in (image_filename # files,
                   case r of
                     Inl err \<Rightarrow> Inl err
                   | Inr imgs \<Rightarrow>
                       Inr (\<lparr>path = ''drill_images/TE_'' @ fmt_03d sid @ ''/'' @ image_filename,
                             page = page_number, order = 1,
                             img_type = Some ''full_page''\<rparr> # imgs))))"

definition extract_all_pages_from_pdf :: "bool list \<Rightarrow> int \<Rightarrow> string list \<times> (py_error + image list)" where
  "extract_all_pages_from_pdf pages_render sid = render_loop sid (enumerate_from 0 pages_render)"

section \<open>Invariants used in the proofs\<close>

text \<open>
  \<open>running_sum_from c ds\<close>: along \<open>ds\<close>, each \<open>cumulative_min\<close> is the one before it
  (\<open>c\<close> for the first drill) plus the drill's own \<open>duration_min\<close>.
\<close>

primrec running_sum_from :: "int \<Rightarrow> drill list \<Rightarrow> bool" where
  "running_sum_from c [] = True"
| "running_sum_from c (d # ds) =
     (cumulative_min d = c + duration_min d \<and> running_sum_from (c + duration_min d) ds)"

text \<open>
  \<open>header_match m\<close>: the groups of \<open>m\<close> are those of a match of the header pattern;
  \<open>id_from_match e d m\<close>: the \<open>drill_id\<close> of \<open>d\<close> is the session identifier, a hyphen
  and the text of group 1 of \<open>m\<close>.
\<close>

definition header_match :: "caps \<Rightarrow> bool" where
  "header_match m \<longleftrightarrow> (\<exists>n t d. m = [(3, d), (2, t), (1, n)] \<and> n \<noteq> [] \<and> list_all py_isdigit n
      \<and> d \<noteq> [] \<and> list_all py_isdigit d)"

definition id_from_match :: "extractor \<Rightarrow> drill \<Rightarrow> caps \<Rightarrow> bool" where
  "id_from_match e d m \<longleftrightarrow>
     (\<exists>n. match_group m 1 = Some n \<and> drill_id d = fmt_opt_int (session_id e) @ ''-'' @ n)"

text \<open>\<open>name_char c\<close>: a character that the decimal form of an integer can hold.\<close>

definition name_char :: "char \<Rightarrow> bool" where
  "name_char c \<longleftrightarrow> py_isdigit c \<or> c = CHR ''-''"

abbreviation (input) three_items_line :: string where
  "three_items_line \<equiv> ''H'' @ uuml # ''tchen, B'' @ auml # ''lle, Reifen''"

abbreviation (input) three_items_lines :: string where
  "three_items_lines \<equiv> ''H'' @ uuml # ''tchen'' @ newline # ''B'' @ auml # ''lle'' @ newline # ''Reifen''"

section \<open>Properties\<close>

subsection \<open>What the matcher returns\<close>

lemma in_ms_Chr: "(s', c') \<in> set (ms (Chr p) (s, c)) \<longleftrightarrow> (\<exists>x. s = x # s' \<and> p x \<and> c' = c)"
  by (cases s) auto

lemma in_ms_Seq: "y \<in> set (ms (Seq a b) st) \<longleftrightarrow> (\<exists>m \<in> set (ms a st). y \<in> set (ms b m))"
  by simp

lemma in_ms_Grp:
  "(s', c') \<in> set (ms (Grp n r) (s, c)) \<longleftrightarrow>
     (\<exists>c''. (s', c'') \<in> set (ms r (s, c)) \<and> c' = (n, take (length s - length s') s) # c'')"
  by force

lemma ms_Star_Chr_Nil: "ms (Star g (Chr p)) ([], c) = [([], c)]"
  by (subst ms.simps(6)) simp

lemma ms_Star_Chr_Cons:
  "ms (Star g (Chr p)) (x # xs, c) =
     (if p x then (if g then ms (Star g (Chr p)) (xs, c) @ [(x # xs, c)]
                   else (x # xs, c) # ms (Star g (Chr p)) (xs, c))
      else [(x # xs, c)])"
  by (subst ms.simps(6)) simp

lemma in_ms_Star_Chr:
  "(s', c') \<in> set (ms (Star g (Chr p)) (s, c)) \<Longrightarrow> c' = c \<and> (\<exists>pre. s = pre @ s' \<and> list_all p pre)"
proof (induction s)
  case Nil
  then show ?case by (simp add: ms_Star_Chr_Nil)
next
  case (Cons x xs)
  show ?case
  proof (cases "(s', c') = (x # xs, c)")
    case True
    then show ?thesis by simp
  next
    case False
    with Cons.prems have px: "p x" and "(s', c') \<in> set (ms (Star g (Chr p)) (xs, c))"
      by (auto simp: ms_Star_Chr_Cons split: if_splits)
    with Cons.IH obtain pre where "c' = c" "xs = pre @ s'" "list_all p pre" by blast
    with px have "x # xs = (x # pre) @ s' \<and> list_all p (x # pre)" by simp
    with \<open>c' = c\<close> show ?thesis by blast
  qed
qed

lemma in_ms_chars:
  "(s', c') \<in> set (ms (seqs (map (\<lambda>a. Chr (q a)) w)) (s, c)) \<Longrightarrow> c' = c"
  by (induction w arbitrary: s) (auto simp: in_ms_Chr simp del: ms.simps(1))

lemma in_ms_Plus_Chr:
  assumes "(s', c') \<in> set (ms (Plus g (Chr p)) (s, c))"
  shows "c' = c \<and> (\<exists>pre. pre \<noteq> [] \<and> s = pre @ s' \<and> list_all p pre)"
proof -
  from assms obtain x xs where s: "s = x # xs" and px: "p x"
    and rest: "(s', c') \<in> set (ms (Star g (Chr p)) (xs, c))"
    by (cases s) (auto simp: Plus_def split: if_splits)
  from in_ms_Star_Chr [OF rest] obtain pre where "c' = c" "xs = pre @ s'" "list_all p pre"
    by blast
  with s px have "x # pre \<noteq> [] \<and> s = (x # pre) @ s' \<and> list_all p (x # pre)" by simp
  with \<open>c' = c\<close> show ?thesis by blast
qed

lemma in_ms_Grp_Plus:
  assumes "(s', c') \<in> set (ms (Grp n (Plus g (Chr p))) (s, c))"
  shows "\<exists>pre. pre \<noteq> [] \<and> list_all p pre \<and> s = pre @ s' \<and> c' = (n, pre) # c"
proof -
  from assms obtain c'' where inner: "(s', c'') \<in> set (ms (Plus g (Chr p)) (s, c))"
    and c': "c' = (n, take (length s - length s') s) # c''"
    by (auto simp: in_ms_Grp simp del: ms.simps)
  from in_ms_Plus_Chr [OF inner] obtain pre where "c'' = c" "pre \<noteq> []" "s = pre @ s'" "list_all p pre"
    by blast
  with c' show ?thesis by auto
qed

lemma in_ms_Grp_Star:
  assumes "(s', c') \<in> set (ms (Grp n (Star g (Chr p))) (s, c))"
  shows "\<exists>pre. list_all p pre \<and> s = pre @ s' \<and> c' = (n, pre) # c"
proof -
  from assms obtain c'' where inner: "(s', c'') \<in> set (ms (Star g (Chr p)) (s, c))"
    and c': "c' = (n, take (length s - length s') s) # c''"
    by (auto simp: in_ms_Grp simp del: ms.simps)
  from in_ms_Star_Chr [OF inner] obtain pre where "c'' = c" "s = pre @ s'" "list_all p pre"
    by blast
  with c' show ?thesis by auto
qed

lemma in_ms_lit_i: "(s', c') \<in> set (ms (lit_i w) (s, c)) \<Longrightarrow> c' = c"
  unfolding lit_i_def by (rule in_ms_chars)

lemma in_ms_drill_pattern:
  assumes "(s', m) \<in> set (ms drill_pattern (s, []))"
  shows "\<exists>n t d. m = [(3, d), (2, t), (1, n)] \<and> n \<noteq> [] \<and> list_all py_isdigit n
            \<and> d \<noteq> [] \<and> list_all py_isdigit d"
proof -
  from assms obtain s1 c1 s2 c2 s3 c3 s4 c4 s5 c5 s6 c6 s7 c7 s8 c8 where
    k: "(s1, c1) \<in> set (ms (alts [lit_i (Uuml # ''bung''), lit_i ''Drill'', lit_i ''Teil'']) (s, []))"
    and sp: "(s2, c2) \<in> set (ms (Star True rx_space) (s1, c1))"
    and g1: "(s3, c3) \<in> set (ms (Grp 1 (Plus True rx_digit)) (s2, c2))"
    and co: "(s4, c4) \<in> set (ms (Plus True (Chr (\<lambda>c. c = CHR '':'' \<or> py_isspace c))) (s3, c3))"
    and g2: "(s5, c5) \<in> set (ms (Grp 2 (Star False (Chr (\<lambda>c. c \<noteq> newline)))) (s4, c4))"
    and pa: "(s6, c6) \<in> set (ms (Chr (\<lambda>c. c = CHR ''('')) (s5, c5))"
    and g3: "(s7, c7) \<in> set (ms (Grp 3 (Plus True rx_digit)) (s6, c6))"
    and s2: "(s8, c8) \<in> set (ms (Star True rx_space) (s7, c7))"
    and mi: "(s', m) \<in> set (ms (lit_i ''Min'') (s8, c8))"
    unfolding drill_pattern_def seqs.simps
    by (auto simp del: ms.simps(1,3,4,5) simp add: in_ms_Seq)
  from k have "c1 = []"
    by (auto dest: in_ms_lit_i simp del: ms.simps(1,3))
  moreover from in_ms_Star_Chr [OF sp] have "c2 = c1" by blast
  moreover from in_ms_Grp_Plus [OF g1] obtain n
    where "n \<noteq> []" "list_all py_isdigit n" "c3 = (1, n) # c2" by blast
  moreover from in_ms_Plus_Chr [OF co] have "c4 = c3" by blast
  moreover from in_ms_Grp_Star [OF g2] obtain t where "c5 = (2, t) # c4" by blast
  moreover from pa have "c6 = c5" by (simp only: in_ms_Chr) blast
  moreover from in_ms_Grp_Plus [OF g3] obtain d
    where "d \<noteq> []" "list_all py_isdigit d" "c7 = (3, d) # c6" by blast
  moreover from in_ms_Star_Chr [OF s2] have "c8 = c7" by blast
  moreover from in_ms_lit_i [OF mi] have "m = c8" .
  ultimately show ?thesis by simp
qed

lemma match_at_in_ms: "match_at r s = Some y \<Longrightarrow> y \<in> set (ms r (s, []))"
  by (auto simp: match_at_def split: list.splits)

lemma finditer_in_match_at:
  "m \<in> set (finditer r s) \<Longrightarrow> \<exists>s0 rest. match_at r s0 = Some (rest, m)"
proof (induction "length s" arbitrary: s rule: less_induct)
  case less
  show ?case
  proof (cases "match_at r s")
    case None
    with less.prems obtain x xs where "s = x # xs" "m \<in> set (finditer r xs)"
      by (subst (asm) finditer.simps) (auto split: list.splits)
    with less.hyps [of xs] show ?thesis by simp
  next
    case (Some y)
    obtain rest c where y: "y = (rest, c)" by (cases y)
    show ?thesis
    proof (cases "m = c")
      case True
      with Some y show ?thesis by blast
    next
      case False
      with less.prems Some y have "\<exists>s'. length s' < length s \<and> m \<in> set (finditer r s')"
        by (subst (asm) finditer.simps) (auto split: list.splits if_splits)
      with less.hyps show ?thesis by blast
    qed
  qed
qed

lemma finditer_drill_pattern_groups:
  assumes "m \<in> set (finditer drill_pattern s)"
  shows "\<exists>n t d. m = [(3, d), (2, t), (1, n)] \<and> n \<noteq> [] \<and> list_all py_isdigit n
            \<and> d \<noteq> [] \<and> list_all py_isdigit d"
  using assms by (blast dest: finditer_in_match_at match_at_in_ms in_ms_drill_pattern)

subsection \<open>The running total of the drill durations\<close>

lemma py_int_nonneg: "py_int s = Inr v \<Longrightarrow> 0 \<le> v"
  by (auto simp: py_int_def split: if_splits)

lemma py_int_digits: "s \<noteq> [] \<Longrightarrow> list_all py_isdigit s \<Longrightarrow> \<exists>v. py_int s = Inr v \<and> 0 \<le> v"
  by (simp add: py_int_def)

lemma drill_of_match_fields:
  assumes "drill_of_match e page_num c m = Inr d"
  shows "cumulative_min d = c + duration_min d" and "0 \<le> duration_min d"
    and "source_page_start d = page_num" and "images d = []"
  using assms
  by (auto simp: drill_of_match_def Let_def split: option.splits sum.splits if_splits
        dest: py_int_nonneg)

lemma matches_loop_running:
  "matches_loop e page_num matches c = Inr (ds, t) \<Longrightarrow>
     running_sum_from c ds \<and> t = c + sum_list (map duration_min ds) \<and> (\<forall>d \<in> set ds. 0 \<le> duration_min d)"
proof (induction matches arbitrary: c ds)
  case Nil
  then show ?case by simp
next
  case (Cons m matches)
  from Cons.prems obtain d ds' where d: "drill_of_match e page_num c m = Inr d"
    and rest: "matches_loop e page_num matches (cumulative_min d) = Inr (ds', t)"
    and ds: "ds = d # ds'"
    by (auto split: sum.splits)
  from Cons.IH [OF rest] drill_of_match_fields(1,2) [OF d] ds show ?case by simp
qed

lemma running_sum_from_append:
  "running_sum_from c (xs @ ys) \<longleftrightarrow>
     running_sum_from c xs \<and> running_sum_from (c + sum_list (map duration_min xs)) ys"
  by (induction xs arbitrary: c) (auto simp: add.assoc)

lemma pages_loop_running:
  "pages_loop e ps c = Inr ds \<Longrightarrow> running_sum_from c ds \<and> (\<forall>d \<in> set ds. 0 \<le> duration_min d)"
proof (induction ps arbitrary: c ds)
  case Nil
  then show ?case by simp
next
  case (Cons p ps)
  obtain page_num ptext where p: "p = (page_num, ptext)" by (cases p)
  from Cons.prems p obtain ds1 t ds2
    where one: "matches_loop e page_num (finditer drill_pattern ptext) c = Inr (ds1, t)"
      and rest: "pages_loop e ps t = Inr ds2" and ds: "ds = ds1 @ ds2"
    by (auto split: sum.splits)
  from matches_loop_running [OF one] Cons.IH [OF rest] ds show ?case
    by (auto simp: running_sum_from_append)
qed

lemma default_loop_running:
  "running_sum_from c (default_loop e xs c)"
  by (induction e xs c rule: default_loop.induct) simp_all

lemma default_loop_durations:
  "map duration_min (default_loop e xs c) = map (\<lambda>(idx, ttl, ph, duration). duration) xs"
  by (induction e xs c rule: default_loop.induct) simp_all

lemma create_default_drills_nonneg: "\<forall>d \<in> set (create_default_drills e). 0 \<le> duration_min d"
proof -
  have "\<forall>x \<in> set (map duration_min (create_default_drills e)). 0 \<le> x"
    unfolding create_default_drills_def default_loop_durations
    by (simp add: default_phases_def)
  then show ?thesis by simp
qed

lemma running_sum_from_distribute:
  "running_sum_from c (distribute_images imgs ds) = running_sum_from c ds"
  by (induction ds arbitrary: c) (simp_all add: distribute_images_def)

lemma duration_distribute:
  "map duration_min (distribute_images imgs ds) = map duration_min ds"
  by (simp add: distribute_images_def)

lemma cumulative_distribute:
  "map cumulative_min (distribute_images imgs ds) = map cumulative_min ds"
  by (simp add: distribute_images_def)

lemma running_sum_from_nth:
  "running_sum_from c ds \<Longrightarrow> n < length ds \<Longrightarrow>
     cumulative_min (ds ! n) = c + sum_list (map duration_min (take (Suc n) ds))"
proof (induction ds arbitrary: c n)
  case Nil
  then show ?case by simp
next
  case (Cons d ds)
  show ?case
  proof (cases n)
    case 0
    with Cons.prems show ?thesis by simp
  next
    case (Suc k)
    from Cons.prems have rest: "running_sum_from (c + duration_min d) ds" by simp
    from Suc Cons.prems have "k < length ds" by simp
    from Cons.IH [OF rest this] Suc show ?thesis by simp
  qed
qed

lemma running_sum_from_sorted:
  "running_sum_from c ds \<Longrightarrow> \<forall>d \<in> set ds. 0 \<le> duration_min d \<Longrightarrow>
     sorted (map cumulative_min ds) \<and> (\<forall>d \<in> set ds. c \<le> cumulative_min d)"
proof (induction ds arbitrary: c)
  case Nil
  then show ?case by simp
next
  case (Cons d ds)
  from Cons.prems Cons.IH [of "c + duration_min d"] show ?case by fastforce
qed

lemma extract_drills_running:
  assumes "extract_drills e pages = Inr ds"
  shows "running_sum_from 0 ds \<and> (\<forall>d \<in> set ds. 0 \<le> duration_min d)"
proof -
  from assms obtain found where found: "pages_loop e (enumerate_from 1 pages) 0 = Inr found"
    by (auto simp: extract_drills_def split: sum.splits)
  define base where "base = (if found = [] then create_default_drills e else found)"
  have base: "running_sum_from 0 base \<and> (\<forall>d \<in> set base. 0 \<le> duration_min d)"
    using pages_loop_running [OF found] create_default_drills_nonneg [of e]
      default_loop_running [of 0 e "enumerate_from 1 default_phases"]
    by (simp add: base_def create_default_drills_def)
  from assms found have "ds = base \<or> (\<exists>imgs. ds = distribute_images imgs base)"
    by (auto simp: extract_drills_def base_def Let_def split: sum.splits if_splits)
  then show ?thesis
  proof
    assume "ds = base"
    with base show ?thesis by simp
  next
    assume "\<exists>imgs. ds = distribute_images imgs base"
    then obtain imgs where ds: "ds = distribute_images imgs base" ..
    have "set (map duration_min ds) = set (map duration_min base)"
      unfolding ds duration_distribute ..
    with base have "\<forall>d \<in> set ds. 0 \<le> duration_min d"
      by (metis (no_types, lifting) image_iff list.set_map)
    with base ds show ?thesis by (simp add: running_sum_from_distribute)
  qed
qed

text \<open>
  Claim C1. Whenever \<open>extract_drills\<close> returns a drill list, by header matching or by
  the default template, the \<open>cumulative_min\<close> of the n-th drill is the sum of the
  \<open>duration_min\<close> of the drills up to and including it, and the \<open>cumulative_min\<close>
  values never decrease along the list.
\<close>

theorem C1_cumulative_min_prefix_sum:
  assumes "extract_drills e pages = Inr ds"
  shows "(\<forall>n < length ds.
            cumulative_min (ds ! n) = sum_list (map duration_min (take (Suc n) ds)))
         \<and> sorted (map cumulative_min ds)"
  using extract_drills_running [OF assms] running_sum_from_nth [of 0 ds]
    running_sum_from_sorted [of 0 ds]
  by simp

theorem C1_witness:
  "(let e = \<lparr>doc = [], filename = ''TE_184.pdf'', extract_images = False,
              session_id = Some 184\<rparr>;
        pages = [''Teil 1: Passen (5 Min) Teil 2: Werfen (7 Min)'', ''kein Kopf'',
                 ''Drill 3: Spiel (30min)''];
        ds = projr (extract_drills e pages)
    in extract_drills e pages = Inr ds
       \<and> map duration_min ds = [5, 7, 30]
       \<and> cumulative_min (ds ! 2) = 42
       \<and> sorted (map cumulative_min ds))"
proof -
  define e where "e = \<lparr>doc = [], filename = ''TE_184.pdf'', extract_images = False,
    session_id = Some 184\<rparr>"
  define pages where "pages = [''Teil 1: Passen (5 Min) Teil 2: Werfen (7 Min)'', ''kein Kopf'',
    ''Drill 3: Spiel (30min)'']"
  define ds where "ds = projr (extract_drills e pages)"
  have "\<not> isl (extract_drills e pages)"
    unfolding e_def pages_def by code_simp
  then have h: "extract_drills e pages = Inr ds"
    by (simp add: ds_def)
  have d: "map duration_min ds = [5, 7, 30]"
    unfolding ds_def e_def pages_def by code_simp
  then have len: "length ds = 3"
    by (metis length_map length_Cons list.size(3) numeral_3_eq_3)
  from C1_cumulative_min_prefix_sum [OF h]
  have sums: "\<forall>n < length ds.
      cumulative_min (ds ! n) = sum_list (map duration_min (take (Suc n) ds))"
    and srt: "sorted (map cumulative_min ds)" by blast+
  from sums len have "cumulative_min (ds ! 2) = sum_list (take 3 (map duration_min ds))"
    by (simp add: take_map eval_nat_numeral)
  with d have "cumulative_min (ds ! 2) = 42" by simp
  with h d srt show ?thesis
    unfolding ds_def e_def pages_def Let_def by blast
qed

subsection \<open>The segmenter always returns\<close>

lemma drill_of_match_header:
  assumes "m = [(3, d), (2, t), (1, n)]" and "d \<noteq> []" and "list_all py_isdigit d"
  shows "\<exists>v. py_int d = Inr v \<and> drill_of_match e page_num c m =
     Inr \<lparr>drill_id = fmt_opt_int (session_id e) @ ''-'' @ n, title = py_strip t,
          duration_min = v, cumulative_min = c + v, phase = classify_phase (py_strip t),
          source_page_start = page_num, text_fields = empty_text,
          text_bullets = empty_bullets, tags = unknown_tags False, images = []\<rparr>"
  using assms by (simp add: drill_of_match_def match_group_def py_int_def Let_def)

lemma drill_of_match_id:
  assumes "header_match m"
  shows "\<exists>d. drill_of_match e page_num c m = Inr d \<and> id_from_match e d m"
proof -
  from assms obtain n t d where m: "m = [(3, d), (2, t), (1, n)]"
    and d: "d \<noteq> []" "list_all py_isdigit d"
    unfolding header_match_def by blast
  from drill_of_match_header [OF m d, of e page_num c] m show ?thesis
    by (auto simp: id_from_match_def match_group_def)
qed

lemma matches_loop_total:
  assumes "\<forall>m \<in> set matches. header_match m"
  shows "\<exists>ds t. matches_loop e page_num matches c = Inr (ds, t)
           \<and> list_all2 (id_from_match e) ds matches"
  using assms
proof (induction matches arbitrary: c)
  case Nil
  then show ?case by simp
next
  case (Cons m matches)
  from Cons.prems have "header_match m" by simp
  from drill_of_match_id [OF this, of e page_num c] obtain d
    where d: "drill_of_match e page_num c m = Inr d" "id_from_match e d m" by blast
  from Cons.prems Cons.IH [of "cumulative_min d"] obtain ds t
    where "matches_loop e page_num matches (cumulative_min d) = Inr (ds, t)"
      "list_all2 (id_from_match e) ds matches" by auto
  with d show ?case by simp
qed

lemma finditer_header_match: "\<forall>m \<in> set (finditer drill_pattern s). header_match m"
  unfolding header_match_def by (blast dest: finditer_drill_pattern_groups)

lemma pages_loop_total:
  "\<exists>ds. pages_loop e ps c = Inr ds
      \<and> list_all2 (id_from_match e) ds (concat (map (\<lambda>(i, p). finditer drill_pattern p) ps))"
proof (induction ps arbitrary: c)
  case Nil
  then show ?case by simp
next
  case (Cons p ps)
  obtain page_num ptext where p: "p = (page_num, ptext)" by (cases p)
  from matches_loop_total [OF finditer_header_match, of e page_num ptext c] obtain ds1 t
    where one: "matches_loop e page_num (finditer drill_pattern ptext) c = Inr (ds1, t)"
      "list_all2 (id_from_match e) ds1 (finditer drill_pattern ptext)" by blast
  from Cons.IH [of t] obtain ds2 where rest: "pages_loop e ps t = Inr ds2"
    "list_all2 (id_from_match e) ds2 (concat (map (\<lambda>(i, p). finditer drill_pattern p) ps))"
    by blast
  from one rest p show ?case by (simp add: list_all2_appendI)
qed

lemma map_snd_enumerate_from: "map snd (enumerate_from n xs) = xs"
  by (induction xs arbitrary: n) simp_all

lemma matches_of_enumerate:
  "concat (map (\<lambda>(i, p). finditer r p) (enumerate_from n xs)) = concat (map (finditer r) xs)"
  by (induction xs arbitrary: n) simp_all

lemma extract_images_from_page_total:
  "1 \<le> page_num \<Longrightarrow> page_num \<le> int (length (doc e)) \<Longrightarrow>
     \<exists>r. extract_images_from_page e page_num = Inr r"
  by (auto simp: extract_images_from_page_def py_getitem_def split: option.splits)

lemma collect_images_total:
  "\<forall>n \<in> set ns. 1 \<le> n \<and> n \<le> int (length (doc e)) \<Longrightarrow> \<exists>imgs. collect_images e ns = Inr imgs"
proof (induction ns)
  case Nil
  then show ?case by simp
next
  case (Cons n ns)
  from Cons.prems extract_images_from_page_total [of n e] obtain r
    where "extract_images_from_page e n = Inr r" by auto
  moreover from Cons obtain imgs where "collect_images e ns = Inr imgs" by auto
  ultimately show ?case by (cases r) simp
qed

lemma collect_images_pages:
  assumes "length pages \<le> length (doc e)"
  shows "\<exists>imgs. collect_images e (map int [1..<Suc (length pages)]) = Inr imgs"
  using assms by (intro collect_images_total) auto

lemma extract_drills_cases:
  assumes "pages_loop e (enumerate_from 1 pages) 0 = Inr found"
    and "extract_images e \<longrightarrow> length pages \<le> length (doc e)"
  shows "\<exists>imgs. extract_drills e pages =
     Inr ((if extract_images e then distribute_images imgs else id)
           (if found = [] then create_default_drills e else found))"
proof (cases "extract_images e")
  case True
  with assms(2) collect_images_pages [of pages e] obtain imgs
    where "collect_images e (map int [1..<Suc (length pages)]) = Inr imgs" by blast
  with assms(1) True show ?thesis by (auto simp: extract_drills_def)
next
  case False
  with assms(1) show ?thesis by (simp add: extract_drills_def)
qed

lemma pages_loop_no_match:
  "\<forall>p \<in> set pages. finditer drill_pattern p = [] \<Longrightarrow>
     pages_loop e (enumerate_from n pages) c = Inr []"
  by (induction pages arbitrary: n c) simp_all

lemma list_all2_distribute:
  "list_all2 (id_from_match e) ds matches \<Longrightarrow>
     list_all2 (id_from_match e) (distribute_images imgs ds) matches"
  by (induction rule: list_all2_induct) (simp_all add: distribute_images_def id_from_match_def)


lemma create_default_drills_template:
  "map (\<lambda>d. (title d, phase d, duration_min d)) (create_default_drills e) = default_phases"
  "map source_page_start (create_default_drills e) = [2, 2, 2, 2, 2, 2]"
  "map cumulative_min (create_default_drills e) = [15, 25, 35, 45, 80, 90]"
  by (simp_all add: create_default_drills_def default_phases_def)

lemma str_int_digits [simp]:
  "str_int 1 = ''1''" "str_int 2 = ''2''" "str_int 3 = ''3''"
  "str_int 4 = ''4''" "str_int 5 = ''5''" "str_int 6 = ''6''"
  by (simp_all add: str_int_def str_nat.simps digit_char_def)

lemma create_default_drills_ids:
  "map drill_id (create_default_drills e) =
     map (\<lambda>k. fmt_opt_int (session_id e) @ ''-'' @ k) [''1'', ''2'', ''3'', ''4'', ''5'', ''6'']"
  by (simp add: create_default_drills_def default_phases_def)

lemma distribute_images_fields:
  "map (\<lambda>d. (title d, phase d, duration_min d)) (distribute_images imgs ds)
     = map (\<lambda>d. (title d, phase d, duration_min d)) ds"
  "map source_page_start (distribute_images imgs ds) = map source_page_start ds"
  "map drill_id (distribute_images imgs ds) = map drill_id ds"
  "length (distribute_images imgs ds) = length ds"
  by (simp_all add: distribute_images_def)

text \<open>
  Claim C3. When no page has a match of the header pattern (and, with image extraction
  on, every page handed over is a page of the document), \<open>extract_drills\<close> returns the
  six drills of the default template, in order, with these titles, phases and durations,
  90 minutes in all, each on origin page 2, numbered 1 to 6. The result is a function of
  the extractor and the pages alone. Whatever the pages, a returned drill list is never
  empty.
\<close>

theorem C3_default_template:
  "((\<forall>p \<in> set pages. finditer drill_pattern p = [])
      \<and> (extract_images e \<longrightarrow> length pages \<le> length (doc e))
    \<longrightarrow> (\<exists>ds. extract_drills e pages = Inr ds
          \<and> map (\<lambda>d. (title d, phase d, duration_min d)) ds =
               [(''Einlaufen/Dehnen'', ''Warm-up'', 15),
                (''kleines Spiel'', ''Spiel'', 10),
                (''Ballgew'' @ ouml # ''hnung'', ''Ballhandling'', 10),
                (''Torh'' @ uuml # ''ter einwerfen'', ''Torh'' @ uuml # ''ter'', 10),
                (''Hauptteil'', ''Angriff'', 35),
                (''Abschlussspiel'', ''Spiel'', 10)]
          \<and> sum_list (map duration_min ds) = 90
          \<and> map source_page_start ds = [2, 2, 2, 2, 2, 2]
          \<and> map drill_id ds = map (\<lambda>k. fmt_opt_int (session_id e) @ ''-'' @ k)
                                  [''1'', ''2'', ''3'', ''4'', ''5'', ''6'']))
   \<and> (\<forall>ds. extract_drills e pages = Inr ds \<longrightarrow> ds \<noteq> [])"
proof (intro conjI impI allI)
  assume a: "(\<forall>p \<in> set pages. finditer drill_pattern p = [])
      \<and> (extract_images e \<longrightarrow> length pages \<le> length (doc e))"
  then have "pages_loop e (enumerate_from 1 pages) 0 = Inr []"
    by (simp add: pages_loop_no_match)
  from extract_drills_cases [OF this] a obtain imgs where
    r: "extract_drills e pages =
      Inr ((if extract_images e then distribute_images imgs else id) (create_default_drills e))"
    by auto
  define ds where "ds = (if extract_images e then distribute_images imgs else id) (create_default_drills e)"
  have f: "map (\<lambda>d. (title d, phase d, duration_min d)) ds = default_phases"
    and p: "map source_page_start ds = [2, 2, 2, 2, 2, 2]"
    and i: "map drill_id ds = map (\<lambda>k. fmt_opt_int (session_id e) @ ''-'' @ k)
                                  [''1'', ''2'', ''3'', ''4'', ''5'', ''6'']"
    by (simp_all add: ds_def distribute_images_fields create_default_drills_template
        create_default_drills_ids)
  have "map duration_min ds = map (\<lambda>(t, p, d). d) (map (\<lambda>d. (title d, phase d, duration_min d)) ds)"
    by simp
  then have s: "sum_list (map duration_min ds) = 90"
    unfolding f by (simp add: default_phases_def)
  from r f p i s show "\<exists>ds. extract_drills e pages = Inr ds
          \<and> map (\<lambda>d. (title d, phase d, duration_min d)) ds =
               [(''Einlaufen/Dehnen'', ''Warm-up'', 15),
                (''kleines Spiel'', ''Spiel'', 10),
                (''Ballgew'' @ ouml # ''hnung'', ''Ballhandling'', 10),
                (''Torh'' @ uuml # ''ter einwerfen'', ''Torh'' @ uuml # ''ter'', 10),
                (''Hauptteil'', ''Angriff'', 35),
                (''Abschlussspiel'', ''Spiel'', 10)]
          \<and> sum_list (map duration_min ds) = 90
          \<and> map source_page_start ds = [2, 2, 2, 2, 2, 2]
          \<and> map drill_id ds = map (\<lambda>k. fmt_opt_int (session_id e) @ ''-'' @ k)
                                  [''1'', ''2'', ''3'', ''4'', ''5'', ''6'']"
    unfolding ds_def [symmetric] by (simp add: default_phases_def)
next
  fix ds
  assume r: "extract_drills e pages = Inr ds"
  then obtain found where "pages_loop e (enumerate_from 1 pages) 0 = Inr found"
    by (auto simp: extract_drills_def split: sum.splits)
  with r have "length ds = length (if found = [] then create_default_drills e else found)"
    by (auto simp: extract_drills_def Let_def distribute_images_fields split: sum.splits if_splits)
  moreover have "length (create_default_drills e) = 6"
    using arg_cong [OF create_default_drills_template(2) [of e], of length] by simp
  ultimately show "ds \<noteq> []" by (auto split: if_splits)
qed


theorem C3_witness:
  "(let e = \<lparr>doc = [\<lparr>page_text = Some ''Trainingseinheit 184'', page_images = Some []\<rparr>,
                     \<lparr>page_text = Some ''Aufbau und Ablauf'', page_images = Some [Some ''png'']\<rparr>],
              filename = ''TE_184.pdf'', extract_images = True, session_id = Some 184\<rparr>;
        pages = [''Trainingseinheit 184'', ''Aufbau und Ablauf''];
        ds = projr (extract_drills e pages)
    in finditer drill_pattern ''Trainingseinheit 184'' = []
       \<and> finditer drill_pattern ''Aufbau und Ablauf'' = []
       \<and> length pages \<le> length (doc e)
       \<and> extract_drills e pages = Inr ds
       \<and> map title ds = [''Einlaufen/Dehnen'', ''kleines Spiel'', ''Ballgew'' @ ouml # ''hnung'',
                           ''Torh'' @ uuml # ''ter einwerfen'', ''Hauptteil'', ''Abschlussspiel'']
       \<and> sum_list (map duration_min ds) = 90
       \<and> ds \<noteq> [])"
proof -
  define e where "e = \<lparr>doc = [\<lparr>page_text = Some ''Trainingseinheit 184'', page_images = Some []\<rparr>,
                     \<lparr>page_text = Some ''Aufbau und Ablauf'', page_images = Some [Some ''png'']\<rparr>],
              filename = ''TE_184.pdf'', extract_images = True, session_id = Some 184\<rparr>"
  define pages where "pages = [''Trainingseinheit 184'', ''Aufbau und Ablauf'']"
  have m1: "finditer drill_pattern ''Trainingseinheit 184'' = []" by code_simp
  have m2: "finditer drill_pattern ''Aufbau und Ablauf'' = []" by code_simp
  have len: "length pages \<le> length (doc e)" by (simp add: e_def pages_def)
  from m1 m2 have none: "\<forall>p \<in> set pages. finditer drill_pattern p = []"
    by (simp add: pages_def)
  from none len have hyp: "(\<forall>p \<in> set pages. finditer drill_pattern p = [])
      \<and> (extract_images e \<longrightarrow> length pages \<le> length (doc e))" by simp
  from C3_default_template [of pages e, THEN conjunct1, rule_format, OF hyp] obtain ds where
    r: "extract_drills e pages = Inr ds"
    and f: "map (\<lambda>d. (title d, phase d, duration_min d)) ds =
               [(''Einlaufen/Dehnen'', ''Warm-up'', 15),
                (''kleines Spiel'', ''Spiel'', 10),
                (''Ballgew'' @ ouml # ''hnung'', ''Ballhandling'', 10),
                (''Torh'' @ uuml # ''ter einwerfen'', ''Torh'' @ uuml # ''ter'', 10),
                (''Hauptteil'', ''Angriff'', 35),
                (''Abschlussspiel'', ''Spiel'', 10)]"
    and s: "sum_list (map duration_min ds) = 90"
    by (elim exE conjE)
  have "map title ds = map fst (map (\<lambda>d. (title d, phase d, duration_min d)) ds)"
    by simp
  then have t: "map title ds = [''Einlaufen/Dehnen'', ''kleines Spiel'', ''Ballgew'' @ ouml # ''hnung'',
                           ''Torh'' @ uuml # ''ter einwerfen'', ''Hauptteil'', ''Abschlussspiel'']"
    unfolding f by simp
  then have "ds \<noteq> []" by auto
  with m1 m2 len r t s show ?thesis
    unfolding e_def [symmetric] pages_def [symmetric] Let_def by simp
qed


text \<open>
  Claim C6. The header pattern ends in the group \<^verbatim>\<open>(?:\((\d+)\s*Min)\<close>, which is not
  optional: a header line without a duration has no match, so no drill is made for it.
  For session 184 and the single page \<open>Ubung 2: Passen\<close> (first letter U+00DC) the
  pattern finds nothing and the segmenter answers with the six default drills, none of
  them the drill \<open>Passen\<close> of 10 minutes.
\<close>

theorem C6_header_without_duration:
  "(let e = \<lparr>doc = [], filename = ''TE_184.pdf'', extract_images = False,
              session_id = Some 184\<rparr>;
        pages = [Uuml # ''bung 2: Passen'']
    in finditer drill_pattern (Uuml # ''bung 2: Passen'') = []
       \<and> map (\<lambda>d. (title d, duration_min d)) (projr (extract_drills e pages)) =
            [(''Einlaufen/Dehnen'', 15), (''kleines Spiel'', 10),
             (''Ballgew'' @ ouml # ''hnung'', 10), (''Torh'' @ uuml # ''ter einwerfen'', 10),
             (''Hauptteil'', 35), (''Abschlussspiel'', 10)])"
  by code_simp


text \<open>
  Claim C10. When the pages have header matches, the drills returned correspond to the
  matches one to one, in order over all pages, and the \<open>drill_id\<close> of each drill is the
  session identifier, a hyphen and the number captured from its header (group 1), not
  its position. So two matches with the same captured number, on one page or on two,
  give two drills with the same \<open>drill_id\<close>.
\<close>

theorem C10_drill_id_from_header_number:
  assumes "extract_drills e pages = Inr ds"
    and "matches = concat (map (finditer drill_pattern) pages)"
    and "matches \<noteq> []"
  shows "length ds = length matches
    \<and> (\<forall>i < length ds. \<exists>n. match_group (matches ! i) 1 = Some n
            \<and> drill_id (ds ! i) = fmt_opt_int (session_id e) @ ''-'' @ n)
    \<and> (\<forall>i < length ds. \<forall>j < length ds.
          match_group (matches ! i) 1 = match_group (matches ! j) 1
          \<longrightarrow> drill_id (ds ! i) = drill_id (ds ! j))"
proof -
  from pages_loop_total [of e "enumerate_from 1 pages" 0] assms(2) obtain found
    where found: "pages_loop e (enumerate_from 1 pages) 0 = Inr found"
      and ids: "list_all2 (id_from_match e) found matches"
    by (auto simp: matches_of_enumerate)
  from ids assms(3) have "found \<noteq> []" by auto
  with assms(1) found have "ds = found \<or> (\<exists>imgs. ds = distribute_images imgs found)"
    by (auto simp: extract_drills_def Let_def split: sum.splits if_splits)
  with ids have all: "list_all2 (id_from_match e) ds matches"
    by (auto intro: list_all2_distribute)
  then have len: "length ds = length matches" by (rule list_all2_lengthD)
  from all have nth: "\<forall>i < length ds. id_from_match e (ds ! i) (matches ! i)"
    by (simp add: list_all2_conv_all_nth)
  then have one: "\<forall>i < length ds. \<exists>n. match_group (matches ! i) 1 = Some n
            \<and> drill_id (ds ! i) = fmt_opt_int (session_id e) @ ''-'' @ n"
    by (simp add: id_from_match_def)
  then have two: "\<forall>i < length ds. \<forall>j < length ds.
          match_group (matches ! i) 1 = match_group (matches ! j) 1
          \<longrightarrow> drill_id (ds ! i) = drill_id (ds ! j)"
    by (metis option.inject)
  from len one two show ?thesis by blast
qed

theorem C10_witness:
  "(let e = \<lparr>doc = [], filename = ''TE_184.pdf'', extract_images = False,
              session_id = Some 184\<rparr>;
        pages = [Uuml # ''bung 1: Passen (5 Min)'', Uuml # ''bung 1: Werfen (7 Min)''];
        ds = projr (extract_drills e pages);
        matches = concat (map (finditer drill_pattern) pages)
    in extract_drills e pages = Inr ds
       \<and> map (\<lambda>m. match_group m 1) matches = [Some ''1'', Some ''1'']
       \<and> length ds = 2
       \<and> drill_id (ds ! 0) = ''184-1''
       \<and> drill_id (ds ! 1) = ''184-1'')"
proof -
  define e where "e = \<lparr>doc = [], filename = ''TE_184.pdf'', extract_images = False,
              session_id = Some 184\<rparr>"
  define pages where "pages = [Uuml # ''bung 1: Passen (5 Min)'', Uuml # ''bung 1: Werfen (7 Min)'']"
  define ds where "ds = projr (extract_drills e pages)"
  define matches where "matches = concat (map (finditer drill_pattern) pages)"
  have "\<not> isl (extract_drills e pages)"
    unfolding e_def pages_def by code_simp
  then have h: "extract_drills e pages = Inr ds"
    by (simp add: ds_def)
  have g: "map (\<lambda>m. match_group m 1) matches = [Some ''1'', Some ''1'']"
    unfolding matches_def pages_def by code_simp
  from arg_cong [OF g, of length] have len2: "length matches = 2" by simp
  then have ne: "matches \<noteq> []" by auto
  have sid: "fmt_opt_int (session_id e) = ''184''"
    unfolding e_def by code_simp
  from C10_drill_id_from_header_number [OF h matches_def ne]
  have len: "length ds = length matches"
    and ids: "\<forall>i < length ds. \<exists>n. match_group (matches ! i) 1 = Some n
            \<and> drill_id (ds ! i) = fmt_opt_int (session_id e) @ ''-'' @ n"
    by blast+
  have n0: "map (\<lambda>m. match_group m 1) matches ! 0 = match_group (matches ! 0) 1"
    and n1: "map (\<lambda>m. match_group m 1) matches ! 1 = match_group (matches ! 1) 1"
    using len2 by simp_all
  from n0 n1 have m0: "match_group (matches ! 0) 1 = Some ''1''"
    and m1: "match_group (matches ! 1) 1 = Some ''1''"
    unfolding g by simp_all
  from ids len len2 have "\<exists>n. match_group (matches ! 0) 1 = Some n
            \<and> drill_id (ds ! 0) = fmt_opt_int (session_id e) @ ''-'' @ n"
    by simp
  with m0 sid have d0: "drill_id (ds ! 0) = ''184-1''" by simp
  from ids len len2 have "\<exists>n. match_group (matches ! 1) 1 = Some n
            \<and> drill_id (ds ! 1) = fmt_opt_int (session_id e) @ ''-'' @ n"
    by simp
  with m1 sid have d1: "drill_id (ds ! 1) = ''184-1''" by simp
  from h g len len2 d0 d1 show ?thesis
    unfolding ds_def matches_def e_def pages_def Let_def by simp
qed

subsection \<open>Phase classification\<close>

text \<open>
  Claim C4. The lower-cased title is tested against the keyword groups in the order of
  the source: a title with a warm-up keyword and an offense keyword is classified
  \<open>Warm-up\<close>, and a title with no keyword of any group is classified \<open>Angriff\<close>.
\<close>

theorem C4_classify_phase_priority:
  "(any_in warmup_words (py_lower ttl) \<and> any_in offense_words (py_lower ttl)
      \<longrightarrow> classify_phase ttl = ''Warm-up'')
   \<and> (\<not> any_in warmup_words (py_lower ttl) \<and> \<not> any_in coordination_words (py_lower ttl)
        \<and> \<not> any_in ballhandling_words (py_lower ttl) \<and> \<not> any_in goalkeeper_words (py_lower ttl)
        \<and> \<not> any_in shooting_words (py_lower ttl) \<and> \<not> any_in offense_words (py_lower ttl)
        \<and> \<not> any_in defense_words (py_lower ttl) \<and> \<not> any_in game_words (py_lower ttl)
      \<longrightarrow> classify_phase ttl = ''Angriff'')"
  by (simp add: classify_phase_def)

theorem C4_witness:
  "(any_in warmup_words (py_lower (''Angriff nach dem AUFW'' @ CHR 0xC4 # ''RMEN''))
     \<and> any_in offense_words (py_lower (''Angriff nach dem AUFW'' @ CHR 0xC4 # ''RMEN''))
     \<and> classify_phase (''Angriff nach dem AUFW'' @ CHR 0xC4 # ''RMEN'') = ''Warm-up'')
   \<and> (\<not> any_in warmup_words (py_lower ''Kraftzirkel'') \<and> \<not> any_in coordination_words (py_lower ''Kraftzirkel'')
        \<and> \<not> any_in ballhandling_words (py_lower ''Kraftzirkel'') \<and> \<not> any_in goalkeeper_words (py_lower ''Kraftzirkel'')
        \<and> \<not> any_in shooting_words (py_lower ''Kraftzirkel'') \<and> \<not> any_in offense_words (py_lower ''Kraftzirkel'')
        \<and> \<not> any_in defense_words (py_lower ''Kraftzirkel'') \<and> \<not> any_in game_words (py_lower ''Kraftzirkel'')
        \<and> classify_phase ''Kraftzirkel'' = ''Angriff'')"
proof -
  have a: "any_in warmup_words (py_lower (''Angriff nach dem AUFW'' @ CHR 0xC4 # ''RMEN''))"
    by code_simp
  have b: "any_in offense_words (py_lower (''Angriff nach dem AUFW'' @ CHR 0xC4 # ''RMEN''))"
    by code_simp
  have c: "\<not> any_in warmup_words (py_lower ''Kraftzirkel'') \<and> \<not> any_in coordination_words (py_lower ''Kraftzirkel'')
        \<and> \<not> any_in ballhandling_words (py_lower ''Kraftzirkel'') \<and> \<not> any_in goalkeeper_words (py_lower ''Kraftzirkel'')
        \<and> \<not> any_in shooting_words (py_lower ''Kraftzirkel'') \<and> \<not> any_in offense_words (py_lower ''Kraftzirkel'')
        \<and> \<not> any_in defense_words (py_lower ''Kraftzirkel'') \<and> \<not> any_in game_words (py_lower ''Kraftzirkel'')"
    by code_simp
  from a b c C4_classify_phase_priority [of "''Angriff nach dem AUFW'' @ CHR 0xC4 # ''RMEN''"]
    C4_classify_phase_priority [of "''Kraftzirkel''"]
  show ?thesis by blast
qed

subsection \<open>The scenario of session 184\<close>

lemma match_at_header:
  "match_at drill_pattern (Uuml # ''bung 1: Aufw'' @ auml # ''rmen (15 Min)'' @ post) =
     Some (CHR '')'' # post, [(3, ''15''), (2, ''Aufw'' @ auml # ''rmen ''), (1, ''1'')])"
  by (simp add: match_at_def drill_pattern_def lit_i_def Plus_def py_isupper_char_def
      py_isspace_def py_isdigit_def ms_Star_Chr_Cons ms_Star_Chr_Nil)

lemma match_at_paren: "match_at drill_pattern (CHR '')'' # post) = None"
  by (simp add: match_at_def drill_pattern_def lit_i_def py_isupper_char_def)

lemma finditer_skip:
  "\<forall>i < length pre. match_at r (drop i (pre @ s)) = None \<Longrightarrow> finditer r (pre @ s) = finditer r s"
proof (induction pre)
  case Nil
  then show ?case by simp
next
  case (Cons x pre)
  from Cons.prems have here: "match_at r (x # pre @ s) = None" by force
  from Cons.prems have "\<forall>i < length pre. match_at r (drop i (pre @ s)) = None" by force
  with Cons.IH have "finditer r (pre @ s) = finditer r s" by simp
  with here show ?case by (subst finditer.simps) simp
qed

lemma finditer_header:
  assumes "txt = pre @ Uuml # ''bung 1: Aufw'' @ auml # ''rmen (15 Min)'' @ post"
    and "\<forall>i < length pre. match_at drill_pattern (drop i txt) = None"
    and "finditer drill_pattern post = []"
  shows "finditer drill_pattern txt = [[(3, ''15''), (2, ''Aufw'' @ auml # ''rmen ''), (1, ''1'')]]"
proof -
  have after: "finditer drill_pattern (CHR '')'' # post) = []"
    using assms(3) by (subst finditer.simps) (simp add: match_at_paren)
  have "finditer drill_pattern (Uuml # ''bung 1: Aufw'' @ auml # ''rmen (15 Min)'' @ post) =
      [[(3, ''15''), (2, ''Aufw'' @ auml # ''rmen ''), (1, ''1'')]]"
    using match_at_header [of post] after by (subst finditer.simps) simp
  with finditer_skip [of pre drill_pattern] assms(1,2) show ?thesis by simp
qed

lemma match_at_session_id_nondigit:
  "\<not> py_isdigit x \<Longrightarrow> match_at session_id_pattern (x # xs) = None"
  by (simp add: match_at_def session_id_pattern_def Plus_def)

lemma session_id_of_skip:
  "list_all (\<lambda>c. \<not> py_isdigit c) a \<Longrightarrow> session_id_of (a @ s) = session_id_of s"
  by (induction a) (simp_all add: session_id_of_def match_at_session_id_nondigit)

lemma session_id_of_184:
  assumes "b = [] \<or> \<not> py_isdigit (hd b)"
  shows "session_id_of (''184'' @ b) = Some 184"
proof (cases b)
  case Nil
  then show ?thesis
    by (simp add: session_id_of_def match_at_def session_id_pattern_def Plus_def
        py_isdigit_def ms_Star_Chr_Cons ms_Star_Chr_Nil match_group_def py_int_def digit_val_def)
next
  case (Cons x xs)
  with assms have "\<not> py_isdigit x" by simp
  with Cons show ?thesis
    by (simp add: session_id_of_def match_at_def session_id_pattern_def Plus_def
        ms_Star_Chr_Cons ms_Star_Chr_Nil match_group_def py_int_def digit_val_def)
       (simp add: py_isdigit_def)
qed

lemma session_id_of_first_run_184:
  assumes "name = a @ ''184'' @ b" and "list_all (\<lambda>c. \<not> py_isdigit c) a"
    and "b = [] \<or> \<not> py_isdigit (hd b)"
  shows "session_id_of name = Some 184"
  using assms session_id_of_skip [of a "''184'' @ b"] session_id_of_184 [of b] by simp

lemma new_extractor_fields:
  assumes "new_extractor name opened with_images = Inr e"
  shows "opened = Some (doc e)" and "session_id e = session_id_of name"
    and "filename e = name" and "extract_images e = with_images"
  using assms by (auto simp: new_extractor_def split: option.splits sum.splits)

lemma str_int_184: "str_int 184 = ''184''"
  by (simp add: str_int_def str_nat.simps digit_char_def)

lemma classify_aufwaermen: "classify_phase (''Aufw'' @ auml # ''rmen'') = ''Warm-up''"
  by code_simp

lemma strip_aufwaermen: "py_strip (''Aufw'' @ auml # ''rmen '') = ''Aufw'' @ auml # ''rmen''"
  by (simp add: py_strip_def py_isspace_def)

lemma py_int_15: "py_int ''15'' = Inr 15"
  by (simp add: py_int_def py_isdigit_def digit_val_def)

text \<open>
  Claim C5, as amended. Take a document whose file name has 184 as its first run of
  digits and whose single page text contains the header \<open>Ubung 1: Aufwarmen (15 Min)\<close>
  (with U+00DC and U+00E4), such that no match of the header pattern starts before the
  header and none is found after it. Then the segmenter returns exactly one drill, with
  \<open>drill_id\<close> 184-1, \<open>duration_min\<close> 15, \<open>cumulative_min\<close> 15, phase \<open>Warm-up\<close> and
  \<open>source_page_start\<close> 1.
\<close>

theorem C5_single_header_page:
  assumes "new_extractor name (Some [pg]) with_images = Inr e"
    and "name = a @ ''184'' @ b"
    and "list_all (\<lambda>c. \<not> py_isdigit c) a"
    and "b = [] \<or> \<not> py_isdigit (hd b)"
    and "extract_text_by_page e = Inr [txt]"
    and "txt = pre @ Uuml # ''bung 1: Aufw'' @ auml # ''rmen (15 Min)'' @ post"
    and "\<forall>i < length pre. match_at drill_pattern (drop i txt) = None"
    and "finditer drill_pattern post = []"
  shows "\<exists>d. extract_drills e [txt] = Inr [d] \<and> drill_id d = ''184-1'' \<and> duration_min d = 15
           \<and> cumulative_min d = 15 \<and> phase d = ''Warm-up'' \<and> source_page_start d = 1"
proof -
  from new_extractor_fields [OF assms(1)] have d: "doc e = [pg]"
    and sid: "session_id e = session_id_of name" by simp_all
  from sid session_id_of_first_run_184 [OF assms(2,3,4)] have sid: "session_id e = Some 184"
    by simp
  define d0 where "d0 = \<lparr>drill_id = ''184-1'', title = ''Aufw'' @ auml # ''rmen'',
      duration_min = 15, cumulative_min = 15, phase = ''Warm-up'', source_page_start = 1,
      text_fields = empty_text, text_bullets = empty_bullets, tags = unknown_tags False,
      images = []\<rparr>"
  have "drill_of_match e 1 0 [(3, ''15''), (2, ''Aufw'' @ auml # ''rmen ''), (1, ''1'')] = Inr d0"
    using strip_aufwaermen classify_aufwaermen
    by (simp add: drill_of_match_def match_group_def py_int_15 Let_def
        sid fmt_opt_int_def str_int_184 d0_def)
  with finditer_header [OF assms(6,7,8)]
  have found: "pages_loop e (enumerate_from 1 [txt]) 0 = Inr [d0]"
    by simp
  have "extract_images e \<longrightarrow> length [txt] \<le> length (doc e)"
    by (simp add: d)
  from extract_drills_cases [OF found this] obtain imgs where
    r: "extract_drills e [txt] = Inr ((if extract_images e then distribute_images imgs else id) [d0])"
    by auto
  show ?thesis
  proof (cases "extract_images e")
    case True
    with r show ?thesis by (simp add: distribute_images_def d0_def)
  next
    case False
    with r show ?thesis by (simp add: d0_def)
  qed
qed


theorem C5_witness:
  "new_extractor ''TE_184.pdf''
       (Some [\<lparr>page_text = Some (''Tag 1: '' @ Uuml # ''bung 1: Aufw'' @ auml # ''rmen (15 Min)'' @ '' Ende''),
               page_images = Some [Some ''png'']\<rparr>]) True
     = Inr \<lparr>doc = [\<lparr>page_text = Some (''Tag 1: '' @ Uuml # ''bung 1: Aufw'' @ auml # ''rmen (15 Min)'' @ '' Ende''),
                       page_images = Some [Some ''png'']\<rparr>],
            filename = ''TE_184.pdf'', extract_images = True, session_id = Some 184\<rparr>
   \<and> ''TE_184.pdf'' = ''TE_'' @ ''184'' @ ''.pdf''
   \<and> list_all (\<lambda>c. \<not> py_isdigit c) ''TE_''
   \<and> \<not> py_isdigit (hd ''.pdf'')
   \<and> list_all (\<lambda>i. match_at drill_pattern
          (drop i (''Tag 1: '' @ Uuml # ''bung 1: Aufw'' @ auml # ''rmen (15 Min)'' @ '' Ende'')) = None)
        [0..<length ''Tag 1: '']
   \<and> finditer drill_pattern '' Ende'' = []
   \<and> map (\<lambda>d. (drill_id d, duration_min d, cumulative_min d, phase d, source_page_start d))
        (projr (extract_drills
          \<lparr>doc = [\<lparr>page_text = Some (''Tag 1: '' @ Uuml # ''bung 1: Aufw'' @ auml # ''rmen (15 Min)'' @ '' Ende''),
                       page_images = Some [Some ''png'']\<rparr>],
            filename = ''TE_184.pdf'', extract_images = True, session_id = Some 184\<rparr>
          [''Tag 1: '' @ Uuml # ''bung 1: Aufw'' @ auml # ''rmen (15 Min)'' @ '' Ende'']))
     = [(''184-1'', 15, 15, ''Warm-up'', 1)]"
proof -
  define tx where "tx = ''Tag 1: '' @ Uuml # ''bung 1: Aufw'' @ auml # ''rmen (15 Min)'' @ '' Ende''"
  define pg where "pg = \<lparr>page_text = Some tx, page_images = Some [Some ''png'']\<rparr>"
  define e where "e = \<lparr>doc = [pg], filename = ''TE_184.pdf'', extract_images = True,
    session_id = Some 184\<rparr>"
  have n: "new_extractor ''TE_184.pdf'' (Some [pg]) True = Inr e"
    unfolding e_def pg_def tx_def by code_simp
  have name: "''TE_184.pdf'' = ''TE_'' @ ''184'' @ ''.pdf''" by simp
  have a: "list_all (\<lambda>c. \<not> py_isdigit c) ''TE_''" by code_simp
  have b: "\<not> py_isdigit (hd ''.pdf'')" by code_simp
  then have b': "''.pdf'' = [] \<or> \<not> py_isdigit (hd ''.pdf'')" by simp
  have t: "extract_text_by_page e = Inr [tx]"
    by (simp add: extract_text_by_page_def e_def pg_def)
  have shape: "tx = ''Tag 1: '' @ Uuml # ''bung 1: Aufw'' @ auml # ''rmen (15 Min)'' @ '' Ende''"
    by (simp add: tx_def)
  have pre: "list_all (\<lambda>i. match_at drill_pattern (drop i tx) = None) [0..<length ''Tag 1: '']"
    unfolding tx_def by code_simp
  then have pre': "\<forall>i < length ''Tag 1: ''. match_at drill_pattern (drop i tx) = None"
    unfolding list_all_iff set_upt by auto
  have post: "finditer drill_pattern '' Ende'' = []" by code_simp
  from C5_single_header_page [OF n name a b' t shape pre' post] obtain d where
    "extract_drills e [tx] = Inr [d]" "drill_id d = ''184-1''" "duration_min d = 15"
    "cumulative_min d = 15" "phase d = ''Warm-up''" "source_page_start d = 1"
    by (elim exE conjE)
  then have "map (\<lambda>d. (drill_id d, duration_min d, cumulative_min d, phase d, source_page_start d))
        (projr (extract_drills e [tx])) = [(''184-1'', 15, 15, ''Warm-up'', 1)]"
    by simp
  with n name a b pre post show ?thesis
    unfolding e_def pg_def tx_def by blast
qed

text \<open>
  Containing the header is not enough, as the claim was first stated: a page with a
  second header after the first gives two drills.
\<close>

theorem C5_counterexample:
  "session_id_of ''TE_184.pdf'' = Some 184
   \<and> py_in (Uuml # ''bung 1: Aufw'' @ auml # ''rmen (15 Min)'')
        (Uuml # ''bung 1: Aufw'' @ auml # ''rmen (15 Min)'' @ newline # Uuml # ''bung 2: Passen (10 Min)'')
   \<and> map drill_id (projr (extract_drills
          \<lparr>doc = [\<lparr>page_text = Some (Uuml # ''bung 1: Aufw'' @ auml # ''rmen (15 Min)'' @ newline # Uuml # ''bung 2: Passen (10 Min)''),
                       page_images = Some []\<rparr>],
            filename = ''TE_184.pdf'', extract_images = True,
            session_id = session_id_of ''TE_184.pdf''\<rparr>
          [Uuml # ''bung 1: Aufw'' @ auml # ''rmen (15 Min)'' @ newline # Uuml # ''bung 2: Passen (10 Min)'']))
     = [''184-1'', ''184-2'']"
  by code_simp


subsection \<open>File names of the images\<close>

lemma digit_val_digit_char: "d < 10 \<Longrightarrow> digit_val (digit_char d) = d"
proof -
  assume "d < 10"
  then have "d = 0 \<or> d = 1 \<or> d = 2 \<or> d = 3 \<or> d = 4 \<or> d = 5 \<or> d = 6 \<or> d = 7 \<or> d = 8 \<or> d = 9"
    by arith
  then show ?thesis
    by (elim disjE) (simp_all add: digit_val_def digit_char_def)
qed

lemma isdigit_digit_char: "d < 10 \<Longrightarrow> py_isdigit (digit_char d)"
proof -
  assume "d < 10"
  then have "d = 0 \<or> d = 1 \<or> d = 2 \<or> d = 3 \<or> d = 4 \<or> d = 5 \<or> d = 6 \<or> d = 7 \<or> d = 8 \<or> d = 9"
    by arith
  then show ?thesis
    by (elim disjE) (simp_all add: py_isdigit_def digit_char_def)
qed

lemma str_nat_digits: "str_nat n \<noteq> [] \<and> list_all py_isdigit (str_nat n)"
proof (induction n rule: str_nat.induct)
  case (1 n)
  show ?case
  proof (cases "n < 10")
    case True
    then show ?thesis by (subst (1 2) str_nat.simps) (simp add: isdigit_digit_char)
  next
    case False
    with "1.IH" show ?thesis
      by (subst (1 2) str_nat.simps) (simp add: isdigit_digit_char)
  qed
qed

lemma str_nat_value: "foldl (\<lambda>a c. 10 * a + digit_val c) 0 (str_nat n) = n"
proof (induction n rule: str_nat.induct)
  case (1 n)
  show ?case
  proof (cases "n < 10")
    case True
    then show ?thesis by (subst str_nat.simps) (simp add: digit_val_digit_char)
  next
    case False
    with "1.IH" show ?thesis
      by (subst str_nat.simps) (simp add: digit_val_digit_char)
  qed
qed

lemma str_nat_inj: "str_nat m = str_nat n \<Longrightarrow> m = n"
  by (metis str_nat_value)

lemma py_int_str_nat: "py_int (str_nat n) = Inr (int n)"
  by (simp add: py_int_def str_nat_digits str_nat_value)

lemma not_digit_minus: "\<not> py_isdigit CHR ''-''"
  by (simp add: py_isdigit_def)

lemma str_int_inj: "str_int i = str_int j \<Longrightarrow> i = j"
proof -
  assume eq: "str_int i = str_int j"
  have hd_digit: "py_isdigit (hd (str_nat n))" for n
    using str_nat_digits [of n] by (cases "str_nat n") simp_all
  show ?thesis
  proof (cases "i < 0"; cases "j < 0")
    assume "i < 0" "j < 0"
    with eq have "str_nat (nat (- i)) = str_nat (nat (- j))" by (simp add: str_int_def)
    then have "nat (- i) = nat (- j)" by (rule str_nat_inj)
    with \<open>i < 0\<close> \<open>j < 0\<close> show ?thesis by simp
  next
    assume "i < 0" "\<not> j < 0"
    with eq have "CHR ''-'' # str_nat (nat (- i)) = str_nat (nat j)" by (simp add: str_int_def)
    then have "hd (str_nat (nat j)) = CHR ''-''" by (metis list.sel(1))
    with hd_digit [of "nat j"] not_digit_minus show ?thesis by simp
  next
    assume "\<not> i < 0" "j < 0"
    with eq have "str_nat (nat i) = CHR ''-'' # str_nat (nat (- j))" by (simp add: str_int_def)
    then have "hd (str_nat (nat i)) = CHR ''-''" by (metis list.sel(1))
    with hd_digit [of "nat i"] not_digit_minus show ?thesis by simp
  next
    assume "\<not> i < 0" "\<not> j < 0"
    with eq have "str_nat (nat i) = str_nat (nat j)" by (simp add: str_int_def)
    then have "nat i = nat j" by (rule str_nat_inj)
    with \<open>\<not> i < 0\<close> \<open>\<not> j < 0\<close> show ?thesis by simp
  qed
qed

lemma str_int_name_chars: "list_all name_char (str_int i)"
  using str_nat_digits [of "nat i"] str_nat_digits [of "nat (- i)"]
  by (auto simp: str_int_def name_char_def list_all_iff)

lemma split_at_stop:
  assumes "xs @ c # r = ys @ c' # r'"
    and "list_all p xs" and "list_all p ys" and "\<not> p c" and "\<not> p c'"
  shows "xs = ys \<and> c = c' \<and> r = r'"
  using assms
proof (induction xs arbitrary: ys)
  case Nil
  then show ?case by (cases ys) auto
next
  case (Cons x xs)
  then show ?case by (cases ys) auto
qed

lemma image_filename_inj:
  assumes "image_filename sid p i ext = image_filename sid p' i' ext'"
  shows "p = p' \<and> i = i' \<and> ext = ext'"
proof -
  have stop: "\<not> name_char CHR ''_''" "\<not> name_char CHR ''.''"
    by (simp_all add: name_char_def py_isdigit_def)
  from assms have "str_int p @ CHR ''_'' # (''img'' @ str_int i @ ''.'' @ ext)
      = str_int p' @ CHR ''_'' # (''img'' @ str_int i' @ ''.'' @ ext')"
    by (simp add: image_filename_def)
  from split_at_stop [OF this str_int_name_chars str_int_name_chars stop(1) stop(1)]
  have p: "str_int p = str_int p'"
    and "str_int i @ CHR ''.'' # ext = str_int i' @ CHR ''.'' # ext'"
    by simp_all
  from split_at_stop [OF this(2) str_int_name_chars str_int_name_chars stop(2) stop(2)]
  have "str_int i = str_int i'" "ext = ext'" by simp_all
  with p show ?thesis by (simp add: str_int_inj)
qed

lemma page_image_filename_inj:
  "page_image_filename sid p = page_image_filename sid p' \<Longrightarrow> p = p'"
  by (simp add: page_image_filename_def str_int_inj)


lemma render_loop_files:
  "fst (render_loop sid (enumerate_from (int k) rs)) =
     map (\<lambda>n. page_image_filename sid (int n)) [Suc k..<Suc k + length (takeWhile id rs)]"
proof (induction rs arbitrary: k)
  case Nil
  then show ?case by simp
next
  case (Cons r rs)
  show ?case
  proof (cases r)
    case True
    have "int k + 1 = int (Suc k)" by simp
    with Cons.IH [of "Suc k"] True show ?thesis
      by (simp add: Let_def split_def upt_conv_Cons ac_simps del: upt_Suc)
  next
    case False
    then show ?thesis by simp
  qed
qed

lemma extract_all_pages_files:
  "fst (extract_all_pages_from_pdf rs sid) =
     map (\<lambda>n. page_image_filename sid (int n)) [1..<Suc (length (takeWhile id rs))]"
  using render_loop_files [of sid 0 rs] by (simp add: extract_all_pages_from_pdf_def)

lemma images_loop_files:
  "extract_images e \<Longrightarrow>
     snd (images_loop e page_num xs) =
       concat (map (\<lambda>(idx, info). case info of None \<Rightarrow> []
                    | Some ext \<Rightarrow> [image_filename (session_id e) page_num idx ext]) xs)"
  by (induction e page_num xs rule: images_loop.induct)
     (auto simp: Let_def split_def split: option.splits sum.splits)

lemma page_name_not_image_name:
  "page_image_filename sid p \<noteq> image_filename sid' p' i ext"
proof -
  have "hd (page_image_filename sid p) = CHR ''T''"
    by (simp add: page_image_filename_def)
  moreover have "hd (image_filename sid' p' i ext) \<noteq> CHR ''T''"
  proof (cases sid')
    case None
    then show ?thesis by (simp add: image_filename_def fmt_opt_int_def)
  next
    case (Some j)
    have "str_int j \<noteq> []" "name_char (hd (str_int j))"
      using str_int_name_chars [of j] str_nat_digits [of "nat j"]
      by (auto simp: str_int_def name_char_def split: if_splits)
        (cases "str_nat (nat j)"; simp)+
    moreover have "\<not> name_char CHR ''T''" by (simp add: name_char_def py_isdigit_def)
    ultimately show ?thesis using Some
      by (cases "str_int j") (auto simp: image_filename_def fmt_opt_int_def)
  qed
  ultimately show ?thesis by metis
qed

text \<open>
  Claim C8, as amended. The full-page render of page \<open>n\<close> (counted from 1) is written
  under \<open>TE_{session_id:03d}_page_{n}.png\<close>, for the pages up to the first that fails to
  render; each embedded image that can be extracted is written under
  \<open>{session_id}-{page_number}_img{index}.{ext}\<close> with the index counted from 1 over all
  images of the page. Within a session, two page numbers never share a render name,
  two different (page, index) pairs never share an embedded name, and a render name is
  never an embedded name.
\<close>

theorem C8_image_file_names:
  "fst (extract_all_pages_from_pdf rs sid) =
      map (\<lambda>n. ''TE_'' @ fmt_03d sid @ ''_page_'' @ str_int (int n) @ ''.png'')
          [1..<Suc (length (takeWhile id rs))]
   \<and> (extract_images e \<and> py_getitem (doc e) (page_num - 1) = Inr pg
        \<and> page_images pg = Some image_list
      \<longrightarrow> (\<exists>imgs. extract_images_from_page e page_num =
            Inr (imgs,
              concat (map (\<lambda>(idx, info). case info of None \<Rightarrow> []
                  | Some ext \<Rightarrow> [fmt_opt_int (session_id e) @ ''-'' @ str_int page_num
                                  @ ''_img'' @ str_int idx @ ''.'' @ ext])
                (enumerate_from 1 image_list)))))
   \<and> (p \<noteq> p' \<longrightarrow> page_image_filename sid p \<noteq> page_image_filename sid p')
   \<and> (p \<noteq> p' \<or> i \<noteq> i' \<longrightarrow>
        image_filename osid p i ext \<noteq> image_filename osid p' i' ext')
   \<and> page_image_filename sid p \<noteq> image_filename osid p' i' ext'"
proof (intro conjI impI)
  show "fst (extract_all_pages_from_pdf rs sid) =
      map (\<lambda>n. ''TE_'' @ fmt_03d sid @ ''_page_'' @ str_int (int n) @ ''.png'')
          [1..<Suc (length (takeWhile id rs))]"
    using extract_all_pages_files [of rs sid] by (simp add: page_image_filename_def)
next
  assume a: "extract_images e \<and> py_getitem (doc e) (page_num - 1) = Inr pg
        \<and> page_images pg = Some image_list"
  then have "extract_images_from_page e page_num =
      Inr (images_loop e page_num (enumerate_from 1 image_list))"
    by (simp add: extract_images_from_page_def)
  moreover from a images_loop_files [of e page_num "enumerate_from 1 image_list"]
  have "snd (images_loop e page_num (enumerate_from 1 image_list)) =
      concat (map (\<lambda>(idx, info). case info of None \<Rightarrow> []
                  | Some ext \<Rightarrow> [fmt_opt_int (session_id e) @ ''-'' @ str_int page_num
                                  @ ''_img'' @ str_int idx @ ''.'' @ ext])
                (enumerate_from 1 image_list))"
    unfolding image_filename_def by blast
  ultimately show "\<exists>imgs. extract_images_from_page e page_num =
            Inr (imgs,
              concat (map (\<lambda>(idx, info). case info of None \<Rightarrow> []
                  | Some ext \<Rightarrow> [fmt_opt_int (session_id e) @ ''-'' @ str_int page_num
                                  @ ''_img'' @ str_int idx @ ''.'' @ ext])
                (enumerate_from 1 image_list)))"
    by (metis prod.collapse)
next
  assume "p \<noteq> p'"
  then show "page_image_filename sid p \<noteq> page_image_filename sid p'"
    by (blast dest: page_image_filename_inj)
next
  assume "p \<noteq> p' \<or> i \<noteq> i'"
  then show "image_filename osid p i ext \<noteq> image_filename osid p' i' ext'"
    by (blast dest: image_filename_inj)
next
  show "page_image_filename sid p \<noteq> image_filename osid p' i' ext'"
    by (rule page_name_not_image_name)
qed


theorem C8_witness:
  "fst (extract_all_pages_from_pdf [True, True] 7) = [''TE_007_page_1.png'', ''TE_007_page_2.png'']
   \<and> extract_images \<lparr>doc = [\<lparr>page_text = Some [], page_images = Some [Some ''png'', None, Some ''jpeg'']\<rparr>],
         filename = ''TE_184.pdf'', extract_images = True, session_id = Some 184\<rparr>
   \<and> py_getitem (doc \<lparr>doc = [\<lparr>page_text = Some [], page_images = Some [Some ''png'', None, Some ''jpeg'']\<rparr>],
         filename = ''TE_184.pdf'', extract_images = True, session_id = Some 184\<rparr>) (1 - 1)
       = Inr \<lparr>page_text = Some [], page_images = Some [Some ''png'', None, Some ''jpeg'']\<rparr>
   \<and> snd (projr (extract_images_from_page
         \<lparr>doc = [\<lparr>page_text = Some [], page_images = Some [Some ''png'', None, Some ''jpeg'']\<rparr>],
          filename = ''TE_184.pdf'', extract_images = True, session_id = Some 184\<rparr> 1))
       = [''184-1_img1.png'', ''184-1_img3.jpeg'']
   \<and> (1::int) \<noteq> 11
   \<and> page_image_filename 7 1 \<noteq> page_image_filename 7 11
   \<and> image_filename (Some 184) 1 12 ''png'' \<noteq> image_filename (Some 184) 11 2 ''png''"
proof -
  define pg where "pg = \<lparr>page_text = Some [], page_images = Some [Some ''png'', None, Some ''jpeg'']\<rparr>"
  define e where "e = \<lparr>doc = [pg], filename = ''TE_184.pdf'', extract_images = True,
    session_id = Some 184\<rparr>"
  note inst = C8_image_file_names [where rs = "[True, True]" and sid = 7 and e = e
      and page_num = 1 and pg = pg and image_list = "[Some ''png'', None, Some ''jpeg'']"
      and p = 1 and p' = 11 and i = 12 and i' = 2 and osid = "Some 184"
      and ext = "''png''" and ext' = "''png''"]
  have names: "map (\<lambda>n. ''TE_'' @ fmt_03d 7 @ ''_page_'' @ str_int (int n) @ ''.png'')
      [1..<Suc (length (takeWhile id [True, True]))] = [''TE_007_page_1.png'', ''TE_007_page_2.png'']"
    by code_simp
  from inst names have a: "fst (extract_all_pages_from_pdf [True, True] 7) =
      [''TE_007_page_1.png'', ''TE_007_page_2.png'']"
    by (simp only:)
  have h1: "extract_images e" by (simp add: e_def)
  have h2: "py_getitem (doc e) (1 - 1) = Inr pg" by (simp add: e_def py_getitem_def)
  have h3: "page_images pg = Some [Some ''png'', None, Some ''jpeg'']" by (simp add: pg_def)
  have files: "concat (map (\<lambda>(idx, info). case info of None \<Rightarrow> []
                  | Some ext \<Rightarrow> [fmt_opt_int (session_id e) @ ''-'' @ str_int 1
                                  @ ''_img'' @ str_int idx @ ''.'' @ ext])
                (enumerate_from 1 [Some ''png'', None, Some ''jpeg'']))
      = [''184-1_img1.png'', ''184-1_img3.jpeg'']"
    unfolding e_def pg_def by code_simp
  from inst h1 h2 h3 obtain imgs where "extract_images_from_page e 1 =
            Inr (imgs,
              concat (map (\<lambda>(idx, info). case info of None \<Rightarrow> []
                  | Some ext \<Rightarrow> [fmt_opt_int (session_id e) @ ''-'' @ str_int 1
                                  @ ''_img'' @ str_int idx @ ''.'' @ ext])
                (enumerate_from 1 [Some ''png'', None, Some ''jpeg''])))"
    by blast
  with files have b: "snd (projr (extract_images_from_page e 1)) =
      [''184-1_img1.png'', ''184-1_img3.jpeg'']"
    by simp
  have ne: "(1::int) \<noteq> 11" by simp
  with inst have c: "page_image_filename 7 1 \<noteq> page_image_filename 7 11"
    and d: "image_filename (Some 184) 1 12 ''png'' \<noteq> image_filename (Some 184) 11 2 ''png''"
    by blast+
  from a h1 h2 b ne c d show ?thesis
    unfolding e_def pg_def by simp
qed

text \<open>
  The render name as the claim first had it, without the prefix \<open>TE_\<close>, is not the
  name the code writes.
\<close>

theorem C8_counterexample:
  "fst (extract_all_pages_from_pdf [True] 184) = [''TE_184_page_1.png'']
   \<and> fmt_03d 184 @ ''_page_'' @ str_int 1 @ ''.png'' = ''184_page_1.png''
   \<and> ''TE_184_page_1.png'' \<noteq> ''184_page_1.png''"
  by code_simp


subsection \<open>Equipment and its tags\<close>

lemma equipment_items_line: "equipment_items three_items_line = [three_items_line]"
  by code_simp

lemma equipment_items_lines:
  "equipment_items three_items_lines = [''H'' @ uuml # ''tchen'', ''B'' @ auml # ''lle'', ''Reifen'']"
  by code_simp

lemma equipment_tags_line:
  "extract_equipment_tags [three_items_line] = [''H'' @ uuml # ''tchen'', ''Ballkiste'', ''Reifen'']"
  by code_simp

lemma equipment_tags_lines:
  "extract_equipment_tags [''H'' @ uuml # ''tchen'', ''B'' @ auml # ''lle'', ''Reifen'']
     = [''H'' @ uuml # ''tchen'', ''Ballkiste'', ''Reifen'']"
  by code_simp

text \<open>
  Claim C7, as amended. For every document text whose equipment section (group 1 of the
  first equipment pattern that matches) is \<open>Hutchen, Balle, Reifen\<close> (with U+00FC and
  U+00E4), equipment extraction returns the one-item list holding that line: items are
  separated by line breaks, hyphens and U+0001, not by commas. When the section has the
  three names on three lines, it returns the three names in that order. In both cases
  the equipment tags include the cone tag \<open>Hutchen\<close> and the ring tag \<open>Reifen\<close>.
\<close>

theorem C7_equipment_section:
  "(find_material equipment_patterns txt = Some c
      \<and> match_group c 1 = Some (''H'' @ uuml # ''tchen, B'' @ auml # ''lle, Reifen'')
    \<longrightarrow> extract_equipment txt = Inr [''H'' @ uuml # ''tchen, B'' @ auml # ''lle, Reifen'']
        \<and> ''H'' @ uuml # ''tchen'' \<in> set (extract_equipment_tags
              [''H'' @ uuml # ''tchen, B'' @ auml # ''lle, Reifen''])
        \<and> ''Reifen'' \<in> set (extract_equipment_tags
              [''H'' @ uuml # ''tchen, B'' @ auml # ''lle, Reifen'']))
   \<and> (find_material equipment_patterns txt = Some c
      \<and> match_group c 1 =
          Some (''H'' @ uuml # ''tchen'' @ newline # ''B'' @ auml # ''lle'' @ newline # ''Reifen'')
    \<longrightarrow> extract_equipment txt = Inr [''H'' @ uuml # ''tchen'', ''B'' @ auml # ''lle'', ''Reifen'']
        \<and> ''H'' @ uuml # ''tchen'' \<in> set (extract_equipment_tags
              [''H'' @ uuml # ''tchen'', ''B'' @ auml # ''lle'', ''Reifen''])
        \<and> ''Reifen'' \<in> set (extract_equipment_tags
              [''H'' @ uuml # ''tchen'', ''B'' @ auml # ''lle'', ''Reifen'']))"
  using equipment_items_line equipment_items_lines equipment_tags_line equipment_tags_lines
  by (simp add: extract_equipment_def)

theorem C7_witness:
  "find_material equipment_patterns
       (''Material:'' @ newline # ''H'' @ uuml # ''tchen, B'' @ auml # ''lle, Reifen'' @ [newline, newline])
     = Some [(1, ''H'' @ uuml # ''tchen, B'' @ auml # ''lle, Reifen'')]
   \<and> match_group [(1, ''H'' @ uuml # ''tchen, B'' @ auml # ''lle, Reifen'')] 1
       = Some (''H'' @ uuml # ''tchen, B'' @ auml # ''lle, Reifen'')
   \<and> extract_equipment
       (''Material:'' @ newline # ''H'' @ uuml # ''tchen, B'' @ auml # ''lle, Reifen'' @ [newline, newline])
     = Inr [''H'' @ uuml # ''tchen, B'' @ auml # ''lle, Reifen'']
   \<and> find_material equipment_patterns
       (''Material:'' @ newline # ''H'' @ uuml # ''tchen'' @ newline # ''B'' @ auml # ''lle''
          @ newline # ''Reifen'' @ newline # ''Ablauf'')
     = Some [(1, ''H'' @ uuml # ''tchen'' @ newline # ''B'' @ auml # ''lle'' @ newline # ''Reifen'')]
   \<and> match_group [(1, ''H'' @ uuml # ''tchen'' @ newline # ''B'' @ auml # ''lle'' @ newline # ''Reifen'')] 1
       = Some (''H'' @ uuml # ''tchen'' @ newline # ''B'' @ auml # ''lle'' @ newline # ''Reifen'')
   \<and> extract_equipment
       (''Material:'' @ newline # ''H'' @ uuml # ''tchen'' @ newline # ''B'' @ auml # ''lle''
          @ newline # ''Reifen'' @ newline # ''Ablauf'')
     = Inr [''H'' @ uuml # ''tchen'', ''B'' @ auml # ''lle'', ''Reifen'']
   \<and> ''Reifen'' \<in> set (extract_equipment_tags [''H'' @ uuml # ''tchen, B'' @ auml # ''lle, Reifen''])"
proof -
  define t1 where "t1 = ''Material:'' @ newline # ''H'' @ uuml # ''tchen, B'' @ auml # ''lle, Reifen''
    @ [newline, newline]"
  define t2 where "t2 = ''Material:'' @ newline # ''H'' @ uuml # ''tchen'' @ newline # ''B'' @ auml # ''lle''
          @ newline # ''Reifen'' @ newline # ''Ablauf''"
  define c1 :: caps where "c1 = [(1, ''H'' @ uuml # ''tchen, B'' @ auml # ''lle, Reifen'')]"
  define c2 :: caps where "c2 = [(1, ''H'' @ uuml # ''tchen'' @ newline # ''B'' @ auml # ''lle'' @ newline # ''Reifen'')]"
  have f1: "find_material equipment_patterns t1 = Some c1"
    unfolding t1_def c1_def by code_simp
  have g1: "match_group c1 1 = Some (''H'' @ uuml # ''tchen, B'' @ auml # ''lle, Reifen'')"
    by (simp add: c1_def match_group_def)
  have f2: "find_material equipment_patterns t2 = Some c2"
    unfolding t2_def c2_def by code_simp
  have g2: "match_group c2 1 =
      Some (''H'' @ uuml # ''tchen'' @ newline # ''B'' @ auml # ''lle'' @ newline # ''Reifen'')"
    by (simp add: c2_def match_group_def)
  from C7_equipment_section [of t1 c1] f1 g1
  have r1: "extract_equipment t1 = Inr [''H'' @ uuml # ''tchen, B'' @ auml # ''lle, Reifen'']"
    and tg: "''Reifen'' \<in> set (extract_equipment_tags [''H'' @ uuml # ''tchen, B'' @ auml # ''lle, Reifen''])"
    by blast+
  from C7_equipment_section [of t2 c2] f2 g2
  have r2: "extract_equipment t2 = Inr [''H'' @ uuml # ''tchen'', ''B'' @ auml # ''lle'', ''Reifen'']"
    by blast
  from f1 g1 r1 f2 g2 r2 tg show ?thesis
    unfolding t1_def t2_def c1_def c2_def by blast
qed

text \<open>
  The list of three items, as the claim was first stated, is not what a section with
  the three names on one line yields.
\<close>

theorem C7_counterexample:
  "py_in (''H'' @ uuml # ''tchen, B'' @ auml # ''lle, Reifen'')
       (''Material:'' @ newline # ''H'' @ uuml # ''tchen, B'' @ auml # ''lle, Reifen'' @ [newline, newline])
   \<and> extract_equipment
       (''Material:'' @ newline # ''H'' @ uuml # ''tchen, B'' @ auml # ''lle, Reifen'' @ [newline, newline])
     = Inr [''H'' @ uuml # ''tchen, B'' @ auml # ''lle, Reifen'']
   \<and> extract_equipment
       (''Material:'' @ newline # ''H'' @ uuml # ''tchen, B'' @ auml # ''lle, Reifen'' @ [newline, newline])
     \<noteq> Inr [''H'' @ uuml # ''tchen'', ''B'' @ auml # ''lle'', ''Reifen'']"
  by code_simp


subsection \<open>Merging into the library\<close>

lemma extract_session_id: "extract_session e = Inr s \<Longrightarrow> s_id s = session_id e"
  by (auto simp: extract_session_def Let_def split: sum.splits)

lemma sort_sessions_typed:
  "list_all (\<lambda>s. s_id s \<noteq> None) xs \<Longrightarrow> sort_sessions xs = Inr (sort_key id_key xs)"
proof (cases xs)
  case Nil
  then show ?thesis by (simp add: sort_sessions_def)
next
  case (Cons x ys)
  assume "list_all (\<lambda>s. s_id s \<noteq> None) xs"
  with Cons show ?thesis by (cases ys) (simp_all add: sort_sessions_def)
qed

lemma process_pdfs_added:
  "process_pdfs fs with_images existing files (new0, open0) = (new1, open1) \<Longrightarrow>
     \<exists>added. new1 = new0 @ added \<and> (\<forall>s \<in> set added. s_id s \<noteq> None \<and> s_id s \<notin> set existing)"
proof (induction files arbitrary: new0 open0)
  case Nil
  then show ?case by simp
next
  case (Cons name files)
  show ?case
  proof (cases "\<exists>sid d e s. session_id_of name = Some sid \<and> Some sid \<notin> set existing
      \<and> fs name = Some d \<and> new_extractor name (Some d) with_images = Inr e
      \<and> extract_session e = Inr s")
    case True
    then obtain sid d e s where a: "session_id_of name = Some sid" "Some sid \<notin> set existing"
      "fs name = Some d" "new_extractor name (Some d) with_images = Inr e"
      "extract_session e = Inr s" by blast
    from a(4,5) have "s_id s = session_id_of name"
      using extract_session_id [of e s] new_extractor_fields(2) [of name "Some d" with_images e]
      by simp
    with a(1,2) have s: "s_id s \<noteq> None \<and> s_id s \<notin> set existing" by simp
    from Cons.prems a
    have "process_pdfs fs with_images existing files (new0 @ [s], open0) = (new1, open1)"
      by simp
    from Cons.IH [OF this] obtain added where "new1 = (new0 @ [s]) @ added"
      "\<forall>s \<in> set added. s_id s \<noteq> None \<and> s_id s \<notin> set existing" by blast
    with s have "new1 = new0 @ (s # added)
      \<and> (\<forall>s \<in> set (s # added). s_id s \<noteq> None \<and> s_id s \<notin> set existing)" by simp
    then show ?thesis by blast
  next
    case False
    with Cons.prems have "\<exists>open'. process_pdfs fs with_images existing files (new0, open') = (new1, open1)"
      by (auto split: option.splits if_splits sum.splits)
    with Cons.IH show ?thesis by blast
  qed
qed

text \<open>
  Claim C2, as amended. Take a library whose sessions have integer identifiers and one
  document whose file name gives the identifier \<open>i\<close>. If \<open>i\<close> is already an identifier
  of the library and the library is in ascending order of identifier, the sessions
  written back are the old list, unchanged: nothing is overwritten and nothing is added.
  (Whatever the order of the library, they are the old sessions stably sorted by
  identifier.) If \<open>i\<close> is not in the library and the document is extracted to the session
  \<open>s\<close>, the sessions written back are the old ones and \<open>s\<close>, one more than before, in
  ascending order of identifier. For a batch of any number of documents, the sessions
  written back are the old ones and sessions whose identifiers are not in the library,
  sorted by identifier.
\<close>

theorem C2_merge_into_library:
  assumes "list_all (\<lambda>s. s_id s \<noteq> None) sessions"
  shows "(session_id_of name = Some i \<and> Some i \<in> set (map s_id sessions)
            \<and> sorted (map id_key sessions) \<longrightarrow>
          fst (update_library sessions [name] fs with_images) = Inr sessions)
    \<and> (session_id_of name = Some i \<and> Some i \<in> set (map s_id sessions) \<longrightarrow>
          fst (update_library sessions [name] fs with_images) = Inr (sort_key id_key sessions))
    \<and> (session_id_of name = Some i \<and> Some i \<notin> set (map s_id sessions) \<and> fs name = Some d
         \<and> new_extractor name (Some d) with_images = Inr e \<and> extract_session e = Inr s \<longrightarrow>
          (\<exists>out. fst (update_library sessions [name] fs with_images) = Inr out
             \<and> length out = length sessions + 1
             \<and> sorted (map id_key out)
             \<and> mset out = mset sessions + {#s#}
             \<and> s_id s = Some i))
    \<and> (\<exists>added. fst (update_library sessions files fs with_images)
                   = Inr (sort_key id_key (sessions @ added))
           \<and> (\<forall>s \<in> set added. s_id s \<noteq> None \<and> s_id s \<notin> set (map s_id sessions)))"
proof (intro conjI impI)
  assume present: "session_id_of name = Some i \<and> Some i \<in> set (map s_id sessions)"
  then have "process_pdfs fs with_images (map s_id sessions) [name] ([], []) = ([], [])"
    by simp
  with assms show "fst (update_library sessions [name] fs with_images) = Inr (sort_key id_key sessions)"
    by (simp add: update_library_def sort_sessions_typed)
next
  assume present: "session_id_of name = Some i \<and> Some i \<in> set (map s_id sessions)
      \<and> sorted (map id_key sessions)"
  then have "process_pdfs fs with_images (map s_id sessions) [name] ([], []) = ([], [])"
    by simp
  with assms have "fst (update_library sessions [name] fs with_images) = Inr (sort_key id_key sessions)"
    by (simp add: update_library_def sort_sessions_typed)
  moreover from present have "sort_key id_key sessions = sessions"
    by (simp add: sort_key_id_if_sorted)
  ultimately show "fst (update_library sessions [name] fs with_images) = Inr sessions" by simp
next
  assume new: "session_id_of name = Some i \<and> Some i \<notin> set (map s_id sessions) \<and> fs name = Some d
         \<and> new_extractor name (Some d) with_images = Inr e \<and> extract_session e = Inr s"
  then have p: "process_pdfs fs with_images (map s_id sessions) [name] ([], []) = ([s], [])"
    by simp
  from new have "s_id s = session_id e" by (simp add: extract_session_id)
  with new new_extractor_fields(2) [of name "Some d" with_images e]
  have sid: "s_id s = Some i" by simp
  with assms have "list_all (\<lambda>s. s_id s \<noteq> None) (sessions @ [s])" by simp
  from sort_sessions_typed [OF this] p
  have "fst (update_library sessions [name] fs with_images) = Inr (sort_key id_key (sessions @ [s]))"
    by (simp add: update_library_def)
  moreover have "length (sort_key id_key (sessions @ [s])) = length sessions + 1" by simp
  moreover have "sorted (map id_key (sort_key id_key (sessions @ [s])))" by (rule sorted_sort_key)
  moreover have "mset (sort_key id_key (sessions @ [s])) = mset sessions + {#s#}" by simp
  ultimately show "\<exists>out. fst (update_library sessions [name] fs with_images) = Inr out
             \<and> length out = length sessions + 1
             \<and> sorted (map id_key out)
             \<and> mset out = mset sessions + {#s#}
             \<and> s_id s = Some i"
    using sid by blast
next
  obtain new1 open1 where p: "process_pdfs fs with_images (map s_id sessions) files ([], []) = (new1, open1)"
    by (cases "process_pdfs fs with_images (map s_id sessions) files ([], [])")
  from process_pdfs_added [OF this] have added: "\<forall>s \<in> set new1. s_id s \<noteq> None \<and> s_id s \<notin> set (map s_id sessions)"
    by simp
  with assms have "list_all (\<lambda>s. s_id s \<noteq> None) (sessions @ new1)"
    by (auto simp: list_all_iff)
  from sort_sessions_typed [OF this] p
  have "fst (update_library sessions files fs with_images) = Inr (sort_key id_key (sessions @ new1))"
    by (simp add: update_library_def)
  with added show "\<exists>added. fst (update_library sessions files fs with_images)
                   = Inr (sort_key id_key (sessions @ added))
           \<and> (\<forall>s \<in> set added. s_id s \<noteq> None \<and> s_id s \<notin> set (map s_id sessions))"
    by blast
qed

theorem C2_witness:
  "(let lib = [\<lparr>source_file = ''TE_100.pdf'', s_id = Some 100, s_title = ''Passen'',
                 duration_total_min = 90, equipment = [], drills = [],
                 extraction = extraction_note,
                 s_tags = \<lparr>s_formation = ''unbekannt'', focus_area = ''unbekannt'',
                            s_concept_tags = [], equipment_tags = []\<rparr>\<rparr>,
               \<lparr>source_file = ''TE_200.pdf'', s_id = Some 200, s_title = ''Werfen'',
                 duration_total_min = 90, equipment = [], drills = [],
                 extraction = extraction_note,
                 s_tags = \<lparr>s_formation = ''unbekannt'', focus_area = ''unbekannt'',
                            s_concept_tags = [], equipment_tags = []\<rparr>\<rparr>];
        fs = [''TE_150.pdf'' \<mapsto> [\<lparr>page_text = Some ''Dauer: 60 Minuten'', page_images = Some []\<rparr>]]
    in list_all (\<lambda>s. s_id s \<noteq> None) lib
       \<and> session_id_of ''TE_200.pdf'' = Some 200
       \<and> Some 200 \<in> set (map s_id lib)
       \<and> sorted (map id_key lib)
       \<and> fst (update_library lib [''TE_200.pdf''] fs False) = Inr lib
       \<and> session_id_of ''TE_150.pdf'' = Some 150
       \<and> Some 150 \<notin> set (map s_id lib)
       \<and> length (projr (fst (update_library lib [''TE_150.pdf''] fs False))) = 3
       \<and> sorted (map id_key (projr (fst (update_library lib [''TE_150.pdf''] fs False))))
       \<and> \<not> isl (fst (update_library lib [''TE_200.pdf'', ''TE_150.pdf''] fs False)))"
proof -
  define lib where "lib = [\<lparr>source_file = ''TE_100.pdf'', s_id = Some 100, s_title = ''Passen'',
                 duration_total_min = 90, equipment = [], drills = [],
                 extraction = extraction_note,
                 s_tags = \<lparr>s_formation = ''unbekannt'', focus_area = ''unbekannt'',
                            s_concept_tags = [], equipment_tags = []\<rparr>\<rparr>,
               \<lparr>source_file = ''TE_200.pdf'', s_id = Some 200, s_title = ''Werfen'',
                 duration_total_min = 90, equipment = [], drills = [],
                 extraction = extraction_note,
                 s_tags = \<lparr>s_formation = ''unbekannt'', focus_area = ''unbekannt'',
                            s_concept_tags = [], equipment_tags = []\<rparr>\<rparr>]"
  define d where "d = [\<lparr>page_text = Some ''Dauer: 60 Minuten'', page_images = Some []\<rparr>]"
  define fs where "fs = [''TE_150.pdf'' \<mapsto> d]"
  define e where "e = projr (new_extractor ''TE_150.pdf'' (Some d) False)"
  define s where "s = projr (extract_session e)"
  have typed: "list_all (\<lambda>s. s_id s \<noteq> None) lib" by (simp add: lib_def)
  have id200: "session_id_of ''TE_200.pdf'' = Some 200" by code_simp
  have id150: "session_id_of ''TE_150.pdf'' = Some 150" by code_simp
  have present: "Some 200 \<in> set (map s_id lib)" by (simp add: lib_def)
  have absent: "Some 150 \<notin> set (map s_id lib)" by (simp add: lib_def)
  have srt: "sorted (map id_key lib)" by (simp add: lib_def id_key_def)
  have "fs ''TE_150.pdf'' = Some d" by (simp add: fs_def)
  moreover have "\<not> isl (new_extractor ''TE_150.pdf'' (Some d) False)"
    unfolding d_def by code_simp
  then have "new_extractor ''TE_150.pdf'' (Some d) False = Inr e" by (simp add: e_def)
  moreover have "\<not> isl (extract_session e)"
    unfolding e_def d_def by code_simp
  then have "extract_session e = Inr s" by (simp add: s_def)
  ultimately have new: "Some 150 \<notin> set (map s_id lib) \<and> fs ''TE_150.pdf'' = Some d
         \<and> new_extractor ''TE_150.pdf'' (Some d) False = Inr e \<and> extract_session e = Inr s"
    using absent by simp
  from C2_merge_into_library [OF typed, where name = "''TE_200.pdf''" and i = 200 and fs = fs
      and with_images = False] id200 present srt
  have same: "fst (update_library lib [''TE_200.pdf''] fs False) = Inr lib" by blast
  from C2_merge_into_library [OF typed, where files = "[''TE_200.pdf'', ''TE_150.pdf'']"
      and fs = fs and with_images = False]
  obtain added where "fst (update_library lib [''TE_200.pdf'', ''TE_150.pdf''] fs False)
      = Inr (sort_key id_key (lib @ added))" by blast
  then have batch: "\<not> isl (fst (update_library lib [''TE_200.pdf'', ''TE_150.pdf''] fs False))"
    by simp
  from C2_merge_into_library [OF typed, where name = "''TE_150.pdf''" and i = 150 and fs = fs
      and d = d and with_images = False and e = e and s = s] id150 new
  obtain out where "fst (update_library lib [''TE_150.pdf''] fs False) = Inr out"
    "length out = length lib + 1" "sorted (map id_key out)" by blast
  then have "length (projr (fst (update_library lib [''TE_150.pdf''] fs False))) = 3"
    "sorted (map id_key (projr (fst (update_library lib [''TE_150.pdf''] fs False))))"
    by (simp_all add: lib_def)
  with typed id200 present srt same id150 absent batch show ?thesis
    unfolding Let_def lib_def [symmetric] d_def [symmetric] fs_def [symmetric] by blast
qed

text \<open>
  The list is not left unchanged for every library, as the claim was first stated: the
  sort runs even when nothing is added, so a library that is not in ascending order of
  identifier is written back reordered.
\<close>

theorem C2_counterexample:
  "session_id_of ''TE_200.pdf'' = Some 200
   \<and> map s_id
        [\<lparr>source_file = ''TE_200.pdf'', s_id = Some 200, s_title = ''Werfen'',
           duration_total_min = 90, equipment = [], drills = [],
           extraction = extraction_note,
           s_tags = \<lparr>s_formation = ''unbekannt'', focus_area = ''unbekannt'',
                      s_concept_tags = [], equipment_tags = []\<rparr>\<rparr>,
         \<lparr>source_file = ''TE_100.pdf'', s_id = Some 100, s_title = ''Passen'',
           duration_total_min = 90, equipment = [], drills = [],
           extraction = extraction_note,
           s_tags = \<lparr>s_formation = ''unbekannt'', focus_area = ''unbekannt'',
                      s_concept_tags = [], equipment_tags = []\<rparr>\<rparr>]
      = [Some 200, Some 100]
   \<and> map s_id (projr (fst (update_library
        [\<lparr>source_file = ''TE_200.pdf'', s_id = Some 200, s_title = ''Werfen'',
           duration_total_min = 90, equipment = [], drills = [],
           extraction = extraction_note,
           s_tags = \<lparr>s_formation = ''unbekannt'', focus_area = ''unbekannt'',
                      s_concept_tags = [], equipment_tags = []\<rparr>\<rparr>,
         \<lparr>source_file = ''TE_100.pdf'', s_id = Some 100, s_title = ''Passen'',
           duration_total_min = 90, equipment = [], drills = [],
           extraction = extraction_note,
           s_tags = \<lparr>s_formation = ''unbekannt'', focus_area = ''unbekannt'',
                      s_concept_tags = [], equipment_tags = []\<rparr>\<rparr>]
        [''TE_200.pdf''] (map_of []) False)))
      = [Some 100, Some 200]"
  by code_simp

text \<open>
  Claim C9. \<open>extractor.close()\<close> is reached only when \<open>extract_session\<close> returns. For the
  batch of \<open>TE_184.pdf\<close>, whose page raises in \<open>get_text\<close>, and \<open>TE_185.pdf\<close>, which
  extracts, the run moves on to the second document and finishes with session 185 while
  the first document is still open.
\<close>

theorem C9_handle_left_open:
  "snd (update_library [] [''TE_184.pdf'', ''TE_185.pdf'']
         [''TE_184.pdf'' \<mapsto> [\<lparr>page_text = None, page_images = Some []\<rparr>],
          ''TE_185.pdf'' \<mapsto> [\<lparr>page_text = Some ''Dauer: 60 Minuten'', page_images = Some []\<rparr>]]
         False) = [''TE_184.pdf'']
   \<and> map s_id (projr (fst (update_library [] [''TE_184.pdf'', ''TE_185.pdf'']
         [''TE_184.pdf'' \<mapsto> [\<lparr>page_text = None, page_images = Some []\<rparr>],
          ''TE_185.pdf'' \<mapsto> [\<lparr>page_text = Some ''Dauer: 60 Minuten'', page_images = Some []\<rparr>]]
         False))) = [Some 185]"
  by code_simp


end
